theory Spec2Isabelle
  imports Complex_Main "HOL-Library.Sublist" "HOL-Library.List_Lexorder" "HOL-Library.Multiset"
    "HOL-Library.Log_Nat"
begin

section \<open>Claim survey quality checker: the model\<close>

text \<open>
  The program (\<^verbatim>\<open>src/main.py\<close>) judges insurance claim survey reports against four rules and
  rolls the verdicts up by institution. This theory embeds its rule engine:
  \<^verbatim>\<open>classify_insurance\<close>, \<^verbatim>\<open>check_mandatory\<close>, \<^verbatim>\<open>check_delay\<close>, \<^verbatim>\<open>check_core_elements\<close>,
  \<^verbatim>\<open>check_overlap\<close>, \<^verbatim>\<open>evaluate_case\<close> and \<^verbatim>\<open>create_summary_sheet\<close>.
\<close>

subsection \<open>Python strings\<close>

text \<open>
  A Python \<^verbatim>\<open>str\<close> is a sequence of Unicode code points; the program's tables are Chinese
  text. A string is modelled as the list of its code points, written in hexadecimal as
  \<^verbatim>\<open>ord\<close> gives them. Python's \<^verbatim>\<open>k in s\<close> on strings is \<^const>\<open>sublist\<close> (a contiguous
  occurrence), its string comparison is the lexicographic order of the code point lists.
  A cell that pandas reads as missing (\<^verbatim>\<open>pd.isna\<close> holds: \<^verbatim>\<open>None\<close>, \<^verbatim>\<open>NaN\<close>, \<^verbatim>\<open>NaT\<close>) is
  \<^const>\<open>None\<close>; a text cell is \<^term>\<open>Some s\<close>, and \<^verbatim>\<open>str(s)\<close> is \<^term>\<open>s\<close> itself.
\<close>

type_synonym str = "nat list"

datatype py_error = KeyError | ZeroDivisionError | ValueError | TypeError | OutOfBoundsDatetime

text \<open>\<^verbatim>\<open>sep.join(xs)\<close>\<close>

fun join :: "str \<Rightarrow> str list \<Rightarrow> str" where
  "join sep [] = []"
| "join sep [x] = x"
| "join sep (x # y # ys) = x @ sep @ join sep (y # ys)"

text \<open>\<^verbatim>\<open>str(n)\<close> of an integer: its decimal digits, with a minus sign when negative.\<close>

fun str_nat :: "nat \<Rightarrow> str" where
  "str_nat n = (if n < 10 then [0x30 + n] else str_nat (n div 10) @ [0x30 + n mod 10])"

definition str_int :: "int \<Rightarrow> str" where
  "str_int i = (if i < 0 then 0x2D # str_nat (nat (- i)) else str_nat (nat i))"

text \<open>
  \<^verbatim>\<open>s.strip()\<close> removes leading and trailing whitespace, the characters for which
  \<^verbatim>\<open>str.isspace\<close> holds.
\<close>

definition isspace :: "nat \<Rightarrow> bool" where
  "isspace c \<longleftrightarrow>
     (0x09 \<le> c \<and> c \<le> 0x0D) \<or> (0x1C \<le> c \<and> c \<le> 0x20) \<or> c = 0x85 \<or> c = 0xA0 \<or>
     c = 0x1680 \<or> (0x2000 \<le> c \<and> c \<le> 0x200A) \<or> c = 0x2028 \<or> c = 0x2029 \<or>
     c = 0x202F \<or> c = 0x205F \<or> c = 0x3000"

definition strip :: "str \<Rightarrow> str" where
  "strip s = rev (dropWhile isspace (rev (dropWhile isspace s)))"

text \<open>\<^verbatim>\<open>d.get(k, default)\<close> and \<^verbatim>\<open>d[k]\<close> on a dictionary kept as an association list.\<close>

definition dict_get :: "('k \<times> 'v) list \<Rightarrow> 'k \<Rightarrow> 'v \<Rightarrow> 'v" where
  "dict_get d k dflt = (case map_of d k of None \<Rightarrow> dflt | Some v \<Rightarrow> v)"

definition dict_item :: "('k \<times> 'v) list \<Rightarrow> 'k \<Rightarrow> py_error + 'v" where
  "dict_item d k = (case map_of d k of None \<Rightarrow> Inl KeyError | Some v \<Rightarrow> Inr v)"

subsection \<open>Regular expressions\<close>

text \<open>
  The patterns of the program use literals, alternation, groups, \<^verbatim>\<open>.{0,n}\<close> and \<^verbatim>\<open>c?\<close> only.
  \<^verbatim>\<open>.\<close> matches any character but the newline (no flag is given). \<open>rmatch r s\<close> lists what
  is left of \<open>s\<close> after each way of matching \<open>r\<close> at its start; \<^verbatim>\<open>re.search\<close> succeeds when
  the pattern matches at the start of some suffix of the text.
\<close>

datatype regex =
  Lit str
  | Dots nat
  | Seq regex regex
  | Alt regex regex
  | Opt regex

fun dots :: "nat \<Rightarrow> str \<Rightarrow> str list" where
  "dots 0 s = [s]"
| "dots (Suc n) [] = [[]]"
| "dots (Suc n) (c # s) = (if c = 0x0A then [c # s] else (c # s) # dots n s)"

fun rmatch :: "regex \<Rightarrow> str \<Rightarrow> str list" where
  "rmatch (Lit w) s = (if prefix w s then [drop (length w) s] else [])"
| "rmatch (Dots n) s = dots n s"
| "rmatch (Seq a b) s = concat (map (rmatch b) (rmatch a s))"
| "rmatch (Alt a b) s = rmatch a s @ rmatch b s"
| "rmatch (Opt a) s = rmatch a s @ [s]"

definition re_search :: "regex \<Rightarrow> str \<Rightarrow> bool" where
  "re_search r t = list_ex (\<lambda>s. rmatch r s \<noteq> []) (suffixes t)"

text \<open>The words a pattern matches: the meaning \<open>rmatch\<close> is checked against.\<close>

fun lang :: "regex \<Rightarrow> str set" where
  "lang (Lit w) = {w}"
| "lang (Dots n) = {g. length g \<le> n \<and> 0x0A \<notin> set g}"
| "lang (Seq a b) = {u @ v | u v. u \<in> lang a \<and> v \<in> lang b}"
| "lang (Alt a b) = lang a \<union> lang b"
| "lang (Opt a) = insert [] (lang a)"

subsection \<open>The rule tables\<close>

text \<open>
  \<^verbatim>\<open>INSURANCE_CATEGORIES\<close> (lines 25-33) and \<^verbatim>\<open>CORE_ELEMENTS\<close> (lines 36-45): dictionaries,
  iterated in insertion order, so association lists in the order of the source.
\<close>

definition cat_employer :: str where "cat_employer = [0x96C7, 0x4E3B, 0x7C7B]"
definition cat_safety :: str where "cat_safety = [0x5B89, 0x8D23, 0x7C7B]"
definition cat_accident :: str where "cat_accident = [0x610F, 0x5916, 0x7C7B]"
definition cat_illness :: str where "cat_illness = [0x91CD, 0x75BE, 0x7C7B]"
definition cat_property :: str where "cat_property = [0x8D22, 0x4EA7, 0x7C7B]"
definition cat_engineering :: str where "cat_engineering = [0x5DE5, 0x7A0B, 0x7C7B]"
definition cat_public :: str where "cat_public = [0x516C, 0x4F17, 0x7C7B]"
definition cat_other :: str where "cat_other = [0x5176, 0x4ED6, 0x7C7B]"

definition INSURANCE_CATEGORIES :: "(str \<times> str list) list" where
  "INSURANCE_CATEGORIES =
     [([0x96C7, 0x4E3B, 0x7C7B],
        [[0x96C7, 0x4E3B, 0x8D23, 0x4EFB]]),
      ([0x5B89, 0x8D23, 0x7C7B],
        [[0x5B89, 0x5168, 0x751F, 0x4EA7, 0x8D23, 0x4EFB],
         [0x5EFA, 0x7B51, 0x65BD, 0x5DE5, 0x884C, 0x4E1A, 0x5B89, 0x5168, 0x751F, 0x4EA7, 0x8D23, 0x4EFB],
         [0x5EFA, 0x5DE5, 0x56E2, 0x610F]]),
      ([0x610F, 0x5916, 0x7C7B],
        [[0x610F, 0x5916, 0x9669]]),
      ([0x91CD, 0x75BE, 0x7C7B],
        [[0x91CD, 0x5927, 0x75BE, 0x75C5]]),
      ([0x8D22, 0x4EA7, 0x7C7B],
        [[0x8D22, 0x4EA7, 0x4E00, 0x5207],
         [0x8D22, 0x4EA7, 0x7EFC, 0x5408],
         [0x8D22, 0x4EA7, 0x57FA, 0x672C],
         [0x673A, 0x5668, 0x635F, 0x574F]]),
      ([0x5DE5, 0x7A0B, 0x7C7B],
        [[0x5EFA, 0x5DE5, 0x4E00, 0x5207],
         [0x8DEF, 0x6865, 0x5DE5, 0x7A0B],
         [0x5B89, 0x5DE5, 0x4E00, 0x5207]]),
      ([0x516C, 0x4F17, 0x7C7B],
        [[0x516C, 0x4F17, 0x8D23, 0x4EFB]])]"

definition CORE_ELEMENTS :: "(str \<times> str list) list" where
  "CORE_ELEMENTS =
     [([0x96C7, 0x4E3B, 0x7C7B],
        [[0x4F24, 0x60C5],
         [0x90E8, 0x4F4D],
         [0x533B, 0x9662],
         [0x5C97, 0x4F4D],
         [0x5DE5, 0x79CD],
         [0x5DE5, 0x4F24],
         [0x52B3, 0x52A8, 0x5173, 0x7CFB],
         [0x5206, 0x5305],
         [0x8003, 0x52E4]]),
      ([0x5B89, 0x8D23, 0x7C7B],
        [[0x4F24, 0x60C5],
         [0x90E8, 0x4F4D],
         [0x533B, 0x9662],
         [0x5C97, 0x4F4D],
         [0x5DE5, 0x79CD],
         [0x5DE5, 0x4F24],
         [0x52B3, 0x52A8, 0x5173, 0x7CFB],
         [0x5206, 0x5305],
         [0x8003, 0x52E4]]),
      ([0x610F, 0x5916, 0x7C7B],
        [[0x4F24, 0x60C5],
         [0x90E8, 0x4F4D],
         [0x533B, 0x9662],
         [0x804C, 0x4E1A]]),
      ([0x91CD, 0x75BE, 0x7C7B],
        [[0x8BCA, 0x65AD, 0x65F6, 0x95F4],
         [0x75BE, 0x75C5, 0x540D, 0x79F0],
         [0x75BE, 0x75C5, 0x7F16, 0x7801],
         [0x65E2, 0x5F80, 0x75C5, 0x53F2]]),
      ([0x8D22, 0x4EA7, 0x7C7B],
        [[0x6807, 0x7684, 0x7C7B, 0x578B],
         [0x539F, 0x56E0, 0x7C7B, 0x578B],
         [0x7EF4, 0x4FEE, 0x65B9, 0x5F0F],
         [0x8D22, 0x52A1, 0x8D26, 0x518C],
         [0x6B8B, 0x503C]]),
      ([0x5DE5, 0x7A0B, 0x7C7B],
        [[0x5DE5, 0x7A0B, 0x540D, 0x79F0],
         [0x6807, 0x7684, 0x7C7B, 0x578B],
         [0x539F, 0x56E0, 0x7C7B, 0x578B],
         [0x8FDB, 0x5EA6],
         [0x7EF4, 0x4FEE],
         [0x4E09, 0x8005]]),
      ([0x516C, 0x4F17, 0x7C7B],
        [[0x5F52, 0x5C5E],
         [0x6807, 0x8BC6],
         [0x76D1, 0x63A7],
         [0x4E09, 0x8005],
         [0x533B, 0x7597],
         [0x548C, 0x89E3],
         [0x8D54, 0x507F]]),
      ([0x5176, 0x4ED6, 0x7C7B],
        [[0x635F, 0x5931, 0x7C7B, 0x578B],
         [0x540E, 0x7EED, 0x5904, 0x7406]])]"

text \<open>\<^verbatim>\<open>DELAY_KEYWORDS\<close> (line 57) and \<^verbatim>\<open>INSTITUTION_ORDER\<close> (lines 60-61).\<close>

definition DELAY_KEYWORDS :: "str list" where
  "DELAY_KEYWORDS =
     [[0x5EF6, 0x8FDF, 0x539F, 0x56E0],
      [0x539F, 0x56E0],
      [0x6838, 0x5B9E],
      [0x5C5E, 0x5B9E]]"

definition INSTITUTION_ORDER :: "str list" where
  "INSTITUTION_ORDER =
     [[0x5408, 0x80A5],
      [0x829C, 0x6E56],
      [0x868C, 0x57E0],
      [0x6DEE, 0x5357],
      [0x9A6C, 0x978D, 0x5C71],
      [0x6DEE, 0x5317],
      [0x94DC, 0x9675],
      [0x5B89, 0x5E86],
      [0x9EC4, 0x5C71],
      [0x6EC1, 0x5DDE],
      [0x961C, 0x9633],
      [0x5BBF, 0x5DDE],
      [0x516D, 0x5B89],
      [0x4EB3, 0x5DDE],
      [0x6C60, 0x5DDE],
      [0x5BA3, 0x57CE]]"

subsection \<open>\<^verbatim>\<open>classify_insurance\<close> (lines 64-73)\<close>

text \<open>
  The inner loop over one category's keywords and the outer loop over the table; the
  \<^verbatim>\<open>return\<close> inside leaves both at the first keyword found in the text.
\<close>

fun scan_keywords :: "str list \<Rightarrow> str \<Rightarrow> bool" where
  "scan_keywords [] s = False"
| "scan_keywords (keyword # keywords) s =
     (if sublist keyword s then True else scan_keywords keywords s)"

fun scan_categories :: "(str \<times> str list) list \<Rightarrow> str \<Rightarrow> str" where
  "scan_categories [] s = cat_other"
| "scan_categories ((category, keywords) # rest) s =
     (if scan_keywords keywords s then category else scan_categories rest s)"

definition classify_insurance :: "str option \<Rightarrow> str" where
  "classify_insurance insurance_type =
     (case insurance_type of
        None \<Rightarrow> cat_other
      | Some s \<Rightarrow> scan_categories INSURANCE_CATEGORIES s)"

subsection \<open>\<^verbatim>\<open>check_mandatory\<close> (lines 76-91)\<close>

text \<open>
  \<^verbatim>\<open>MANDATORY_PATTERNS\<close> (lines 48-54): five items, each with its pattern, in the order of
  the source. The items are survey time, survey place, survey method, accident time and
  accident place. With a character outside ASCII written as its code point in angle
  brackets, the five patterns of the source are

  \<^item> \<^verbatim>\<open><67E5><52D8>.{0,3}<65F6><95F4>|<4E8E>.{0,10}(<67E5><52D8>|<52D8><67E5>)|<67E5><52D8>.{0,5}<65E5><671F>\<close>
  \<^item> \<^verbatim>\<open><67E5><52D8>.{0,3}<5730><70B9>|<5728>.{0,10}(<67E5><52D8>|<52D8><67E5>)|<73B0><573A><4F4D><4E8E>\<close>
  \<^item> \<^verbatim>\<open><73B0><573A>|<89C6><9891>|<6838><5B9E>|<8D70><8BBF>|<7535><8BDD>|<8FDC><7A0B>|<5230><573A>\<close>
  \<^item> \<^verbatim>\<open><51FA><9669>.{0,3}<65F6><95F4>|<4E8B><6545>.{0,3}<65F6><95F4>|<53D1><751F>.{0,5}<65F6><95F4>|<4E8E>.{0,10}(<51FA><9669>|<53D1><751F>)\<close>
  \<^item> \<^verbatim>\<open><51FA><9669>.{0,3}<5730><70B9>|<4E8B><6545>.{0,3}<5730><70B9>|<53D1><751F>.{0,5}<5730><70B9>|<4F4D><4E8E>.{0,10}<53D1><751F>\<close>
\<close>

definition item_survey_time :: str where "item_survey_time = [0x67E5, 0x52D8, 0x65F6, 0x95F4]"
definition item_survey_place :: str where "item_survey_place = [0x67E5, 0x52D8, 0x5730, 0x70B9]"
definition item_survey_method :: str where "item_survey_method = [0x67E5, 0x52D8, 0x65B9, 0x5F0F]"
definition item_accident_time :: str where "item_accident_time = [0x51FA, 0x9669, 0x65F6, 0x95F4]"
definition item_accident_place :: str where "item_accident_place = [0x51FA, 0x9669, 0x5730, 0x70B9]"

definition MANDATORY_PATTERNS :: "(str \<times> regex) list" where
  "MANDATORY_PATTERNS =
     [(item_survey_time,
       Alt (Seq (Lit [0x67E5, 0x52D8]) (Seq (Dots 3) (Lit [0x65F6, 0x95F4])))
        (Alt (Seq (Lit [0x4E8E]) (Seq (Dots 10) (Alt (Lit [0x67E5, 0x52D8])
                                                    (Lit [0x52D8, 0x67E5]))))
        (Seq (Lit [0x67E5, 0x52D8]) (Seq (Dots 5) (Lit [0x65E5, 0x671F]))))),
      (item_survey_place,
       Alt (Seq (Lit [0x67E5, 0x52D8]) (Seq (Dots 3) (Lit [0x5730, 0x70B9])))
        (Alt (Seq (Lit [0x5728]) (Seq (Dots 10) (Alt (Lit [0x67E5, 0x52D8])
                                                    (Lit [0x52D8, 0x67E5]))))
        (Lit [0x73B0, 0x573A, 0x4F4D, 0x4E8E]))),
      (item_survey_method,
       Alt (Lit [0x73B0, 0x573A])
        (Alt (Lit [0x89C6, 0x9891])
        (Alt (Lit [0x6838, 0x5B9E])
        (Alt (Lit [0x8D70, 0x8BBF])
        (Alt (Lit [0x7535, 0x8BDD])
        (Alt (Lit [0x8FDC, 0x7A0B])
        (Lit [0x5230, 0x573A]))))))),
      (item_accident_time,
       Alt (Seq (Lit [0x51FA, 0x9669]) (Seq (Dots 3) (Lit [0x65F6, 0x95F4])))
        (Alt (Seq (Lit [0x4E8B, 0x6545]) (Seq (Dots 3) (Lit [0x65F6, 0x95F4])))
        (Alt (Seq (Lit [0x53D1, 0x751F]) (Seq (Dots 5) (Lit [0x65F6, 0x95F4])))
        (Seq (Lit [0x4E8E]) (Seq (Dots 10) (Alt (Lit [0x51FA, 0x9669])
                                                (Lit [0x53D1, 0x751F]))))))),
      (item_accident_place,
       Alt (Seq (Lit [0x51FA, 0x9669]) (Seq (Dots 3) (Lit [0x5730, 0x70B9])))
        (Alt (Seq (Lit [0x4E8B, 0x6545]) (Seq (Dots 3) (Lit [0x5730, 0x70B9])))
        (Alt (Seq (Lit [0x53D1, 0x751F]) (Seq (Dots 5) (Lit [0x5730, 0x70B9])))
        (Seq (Lit [0x4F4D, 0x4E8E]) (Seq (Dots 10) (Lit [0x53D1, 0x751F]))))))]"

text \<open>The loop of lines 87-89, with the list \<^verbatim>\<open>missing\<close> it appends to.\<close>

fun mandatory_loop :: "(str \<times> regex) list \<Rightarrow> str \<Rightarrow> str list \<Rightarrow> str list" where
  "mandatory_loop [] text missing = missing"
| "mandatory_loop ((item, pattern) # rest) text missing =
     mandatory_loop rest text
       (if \<not> re_search pattern text then missing @ [item] else missing)"

definition check_mandatory :: "str option \<Rightarrow> bool \<times> str list" where
  "check_mandatory survey_summary =
     (case survey_summary of
        None \<Rightarrow> (False, map fst MANDATORY_PATTERNS)
      | Some text \<Rightarrow>
          (let missing = mandatory_loop MANDATORY_PATTERNS text []
           in (length missing = 0, missing)))"

subsection \<open>\<^verbatim>\<open>check_delay\<close> (lines 94-132)\<close>

text \<open>
  The parser (\<^verbatim>\<open>pd.to_datetime\<close> on a text, \<^verbatim>\<open>pd.Timestamp\<close> on any other value) belongs
  to pandas and is not modelled: a time cell is given by what \<^verbatim>\<open>pd.isna\<close> and the parser
  make of it. It is

  \<^item> \<open>NaT\<close>: a missing cell, \<^verbatim>\<open>pd.isna\<close> holds (\<^verbatim>\<open>None\<close>, \<^verbatim>\<open>NaN\<close>, \<^verbatim>\<open>NaT\<close>);
  \<^item> \<open>Unparsable\<close>: a value on which the parser raises;
  \<^item> \<open>NaTText\<close>: a text that is not missing and that the parser accepts and turns into
    \<^verbatim>\<open>NaT\<close> without raising (the texts \<^verbatim>\<open>NaT\<close> and \<^verbatim>\<open>nan\<close>, the empty text);
  \<^item> \<open>Time ns aware\<close>: a value the parser turns into a timestamp, \<open>ns\<close> nanoseconds from
    the epoch (in UTC when the value carries a timezone), \<open>aware\<close> telling whether it
    carries a timezone.

  A pandas timestamp at its nanosecond resolution is an \<^verbatim>\<open>int64\<close> other than the least one,
  which is kept for \<^verbatim>\<open>NaT\<close>; the parser raises on a time beyond that range, and so does the
  subtraction of two timestamps whose difference is beyond it. The subtraction also raises
  on one timestamp with a timezone and one without. \<^verbatim>\<open>NaT\<close> minus a timestamp, and a
  timestamp minus \<^verbatim>\<open>NaT\<close>, are \<^verbatim>\<open>NaT\<close>.
\<close>

datatype timeval = NaT | Unparsable | NaTText | Time int bool

datatype timestamp = StampNaT | Stamp int bool

datatype timedelta = DeltaNaT | Delta int

definition INT64_MAX :: int where
  "INT64_MAX = 9223372036854775807"

definition in_int64 :: "int \<Rightarrow> bool" where
  "in_int64 v \<longleftrightarrow> - INT64_MAX \<le> v \<and> v \<le> INT64_MAX"

definition to_timestamp :: "timeval \<Rightarrow> py_error + timestamp" where
  "to_timestamp v =
     (case v of
        NaT \<Rightarrow> Inr StampNaT
      | Unparsable \<Rightarrow> Inl ValueError
      | NaTText \<Rightarrow> Inr StampNaT
      | Time ns aware \<Rightarrow> if in_int64 ns then Inr (Stamp ns aware) else Inl OutOfBoundsDatetime)"

text \<open>\<^verbatim>\<open>report_dt - accident_dt\<close> (line 115).\<close>

definition timestamp_sub :: "timestamp \<Rightarrow> timestamp \<Rightarrow> py_error + timedelta" where
  "timestamp_sub report_dt accident_dt =
     (case (report_dt, accident_dt) of
        (Stamp r r_aware, Stamp a a_aware) \<Rightarrow>
          if r_aware \<noteq> a_aware then Inl TypeError
          else if in_int64 (r - a) then Inr (Delta (r - a))
          else Inl OutOfBoundsDatetime
      | _ \<Rightarrow> Inr DeltaNaT)"

text \<open>
  \<^verbatim>\<open>.days\<close> (line 115) is the number of whole days of a difference, rounded down (\<open>div\<close> on
  \<open>int\<close> rounds down, for negative differences too), and the float \<^verbatim>\<open>nan\<close> on \<^verbatim>\<open>NaT\<close>. A
  comparison with \<^verbatim>\<open>nan\<close> is false, and \<^verbatim>\<open>nan\<close> is rendered as the text \<^verbatim>\<open>nan\<close>.
\<close>

datatype days = NaN | Days int

definition NS_PER_DAY :: int where
  "NS_PER_DAY = 86400 * 1000000000"

definition timedelta_days :: "timedelta \<Rightarrow> days" where
  "timedelta_days d = (case d of DeltaNaT \<Rightarrow> NaN | Delta ns \<Rightarrow> Days (ns div NS_PER_DAY))"

definition days_le :: "days \<Rightarrow> int \<Rightarrow> bool" where
  "days_le d n = (case d of NaN \<Rightarrow> False | Days k \<Rightarrow> k \<le> n)"

definition str_days :: "days \<Rightarrow> str" where
  "str_days d = (case d of NaN \<Rightarrow> [0x6E, 0x61, 0x6E] | Days k \<Rightarrow> str_int k)"

definition DELAY_MSG :: str where
  "DELAY_MSG = [0x62A5, 0x6848, 0x5EF6, 0x8FDF]"

definition DELAY_MSG_NOT_FILLED :: str where
  "DELAY_MSG_NOT_FILLED =
     [0x5929, 0xFF0C, 0x67E5, 0x52D8, 0x6458, 0x8981, 0x672A, 0x586B, 0x5199, 0x5EF6, 0x8FDF,
      0x539F, 0x56E0]"

definition DELAY_MSG_NOT_EXPLAINED :: str where
  "DELAY_MSG_NOT_EXPLAINED =
     [0x5929, 0xFF0C, 0x67E5, 0x52D8, 0x6458, 0x8981, 0x672A, 0x5305, 0x542B, 0x5EF6, 0x8FDF,
      0x539F, 0x56E0, 0x8BF4, 0x660E]"

text \<open>
  The body of the \<^verbatim>\<open>try\<close>: an exception of the parser or of the subtraction is \<open>Inl\<close>.
  The loop over \<^verbatim>\<open>DELAY_KEYWORDS\<close> (lines 125-127) has the shape of \<open>scan_keywords\<close>.
\<close>

definition check_delay_try ::
    "timeval \<Rightarrow> timeval \<Rightarrow> str option \<Rightarrow> py_error + (bool \<times> bool \<times> str)" where
  "check_delay_try accident_time report_time survey_summary =
     (if accident_time = NaT \<or> report_time = NaT then Inr (False, True, [])
      else
        case to_timestamp accident_time of
          Inl e \<Rightarrow> Inl e
        | Inr accident_dt \<Rightarrow>
            (case to_timestamp report_time of
               Inl e \<Rightarrow> Inl e
             | Inr report_dt \<Rightarrow>
                 (case timestamp_sub report_dt accident_dt of
                    Inl e \<Rightarrow> Inl e
                  | Inr delta \<Rightarrow>
                      (let delay_days = timedelta_days delta in
                       if days_le delay_days 7 then Inr (False, True, [])
                       else
                         case survey_summary of
                           None \<Rightarrow>
                             Inr (True, False,
                                  DELAY_MSG @ str_days delay_days @ DELAY_MSG_NOT_FILLED)
                         | Some text \<Rightarrow>
                             if scan_keywords DELAY_KEYWORDS text then Inr (True, True, [])
                             else Inr (True, False,
                                    DELAY_MSG @ str_days delay_days @
                                    DELAY_MSG_NOT_EXPLAINED)))))"

text \<open>\<^verbatim>\<open>except Exception\<close> (lines 131-132) turns every exception into the fail-open result.\<close>

definition check_delay :: "timeval \<Rightarrow> timeval \<Rightarrow> str option \<Rightarrow> bool \<times> bool \<times> str" where
  "check_delay accident_time report_time survey_summary =
     (case check_delay_try accident_time report_time survey_summary of
        Inl e \<Rightarrow> (False, True, [])
      | Inr result \<Rightarrow> result)"

subsection \<open>\<^verbatim>\<open>check_core_elements\<close> (lines 135-162)\<close>

text \<open>
  Line 152 builds the pattern of an element by two textual replacements: every
  \<^verbatim>\<open>U+7C7B U+578B\<close> becomes \<^verbatim>\<open>.{0,2}\<close> followed by \<^verbatim>\<open>U+7C7B\<close> and \<^verbatim>\<open>U+578B?\<close>, every
  \<^verbatim>\<open>U+65B9 U+5F0F\<close> becomes \<^verbatim>\<open>.{0,2}\<close> followed by \<^verbatim>\<open>U+65B9\<close> and \<^verbatim>\<open>U+5F0F?\<close>. In a regular
  expression \<^verbatim>\<open>?\<close> binds to the one character before it. The two pairs share no
  character and the replacement text contains neither, so the two passes amount to one
  scan from the left. The elements come from \<^verbatim>\<open>CORE_ELEMENTS\<close> only and hold no character
  that is special in a pattern, so every other character stands for itself.
\<close>

fun fuzzy_pattern :: "str \<Rightarrow> regex" where
  "fuzzy_pattern [] = Lit []"
| "fuzzy_pattern [a] = Lit [a]"
| "fuzzy_pattern (a # b # s) =
     (if a = 0x7C7B \<and> b = 0x578B then
        Seq (Dots 2) (Seq (Lit [0x7C7B]) (Seq (Opt (Lit [0x578B])) (fuzzy_pattern s)))
      else if a = 0x65B9 \<and> b = 0x5F0F then
        Seq (Dots 2) (Seq (Lit [0x65B9]) (Seq (Opt (Lit [0x5F0F])) (fuzzy_pattern s)))
      else Seq (Lit [a]) (fuzzy_pattern (b # s)))"

text \<open>The test of line 153.\<close>

definition element_matches :: "str \<Rightarrow> str \<Rightarrow> bool" where
  "element_matches element text \<longleftrightarrow>
     re_search (fuzzy_pattern element) text \<or> sublist element text"

text \<open>The loop of lines 150-156, with the lists \<^verbatim>\<open>matched\<close> and \<^verbatim>\<open>missing\<close>.\<close>

fun core_loop :: "str list \<Rightarrow> str \<Rightarrow> str list \<times> str list \<Rightarrow> str list \<times> str list" where
  "core_loop [] text (matched, missing) = (matched, missing)"
| "core_loop (element # rest) text (matched, missing) =
     core_loop rest text
       (if element_matches element text then (matched @ [element], missing)
        else (matched, missing @ [element]))"

text \<open>
  \<^verbatim>\<open>CORE_ELEMENTS.get(category, CORE_ELEMENTS[other])\<close>: the default is evaluated first, and
  would raise \<^verbatim>\<open>KeyError\<close> were the key not in the table.
\<close>

definition core_elements_of :: "str \<Rightarrow> py_error + str list" where
  "core_elements_of category =
     (case dict_item CORE_ELEMENTS cat_other of
        Inl e \<Rightarrow> Inl e
      | Inr dflt \<Rightarrow> Inr (dict_get CORE_ELEMENTS category dflt))"

definition check_core_elements ::
    "str \<Rightarrow> str option \<Rightarrow> py_error + (bool \<times> nat \<times> str list)" where
  "check_core_elements category survey_summary =
     (case core_elements_of category of
        Inl e \<Rightarrow> Inl e
      | Inr elements \<Rightarrow>
          (case survey_summary of
             None \<Rightarrow> Inr (False, 0, elements)
           | Some text \<Rightarrow>
               (let (matched, missing) = core_loop elements text ([], []);
                    min_required = min 3 (length elements);
                    passed = (length matched \<ge> min_required)
                in Inr (passed, length matched, missing))))"

subsection \<open>\<^verbatim>\<open>check_overlap\<close> (lines 165-189)\<close>

text \<open>
  The rate is the quotient of two set sizes. Python holds it as the binary floating-point
  number nearest to the quotient; the model holds the quotient itself, a rational. The
  test against \<^verbatim>\<open>0.8\<close> is not affected: both sizes are at most the number of Unicode code
  points, so a quotient other than \<open>4/5\<close> is further from it than the rounding of either
  side can bridge, and the quotient \<open>4/5\<close> rounds to the very number the literal \<^verbatim>\<open>0.8\<close>
  denotes.
\<close>

definition py_truediv :: "nat \<Rightarrow> nat \<Rightarrow> py_error + rat" where
  "py_truediv a b = (if b = 0 then Inl ZeroDivisionError else Inr (of_nat a / of_nat b))"

definition check_overlap :: "str option \<Rightarrow> str option \<Rightarrow> py_error + (bool \<times> rat)" where
  "check_overlap report_summary survey_summary =
     (case (report_summary, survey_summary) of
        (Some r, Some s) \<Rightarrow>
          (let report_text = strip r; survey_text = strip s in
           if report_text = [] \<or> survey_text = [] then Inr (True, 0)
           else
             (let report_chars = set report_text;
                  survey_chars = set survey_text;
                  overlap_chars = report_chars \<inter> survey_chars;
                  max_len = max (card report_chars) (card survey_chars)
              in case (if max_len > 0 then py_truediv (card overlap_chars) max_len else Inr 0) of
                   Inl e \<Rightarrow> Inl e
                 | Inr overlap_rate \<Rightarrow> Inr (overlap_rate < 4 / 5, overlap_rate)))
      | _ \<Rightarrow> Inr (True, 0))"

subsection \<open>\<^verbatim>\<open>evaluate_case\<close> (lines 192-234)\<close>

text \<open>
  A row holds, for each of the five columns read, the cell of the column, or \<open>None\<close>
  when the row has no such column; \<^verbatim>\<open>row.get(name, default)\<close> is \<open>row_get\<close>.
\<close>

record row =
  col_insurance_type :: "str option option"
  col_accident_time :: "timeval option"
  col_report_time :: "timeval option"
  col_report_summary :: "str option option"
  col_survey_summary :: "str option option"

definition row_get :: "'a option \<Rightarrow> 'a \<Rightarrow> 'a" where
  "row_get cell dflt = (case cell of None \<Rightarrow> dflt | Some v \<Rightarrow> v)"

definition QUALIFIED :: str where
  "QUALIFIED = [0x5408, 0x683C]"

definition UNQUALIFIED :: str where
  "UNQUALIFIED = [0x4E0D, 0x5408, 0x683C]"

definition COMMA_SPACE :: str where
  "COMMA_SPACE = [0x2C, 0x20]"

definition REASON_SEP :: str where
  "REASON_SEP = [0xFF1B]"

text \<open>The reason texts of lines 212, 223 and 228.\<close>

definition mandatory_reason :: "str list \<Rightarrow> str" where
  "mandatory_reason mandatory_missing =
     [0x5FC5, 0x586B, 0x9879, 0x7F3A, 0x5931, 0xFF1A] @ join COMMA_SPACE mandatory_missing"

definition core_reason :: "nat \<Rightarrow> nat \<Rightarrow> str list \<Rightarrow> str" where
  "core_reason min_required core_count core_missing =
     [0x6838, 0x5FC3, 0x8981, 0x7D20, 0x4E0D, 0x8DB3, 0xFF08, 0x9700] @ str_nat min_required @
     [0x4E2A, 0xFF0C, 0x4EC5] @ str_nat core_count @
     [0x4E2A, 0xFF09, 0xFF0C, 0x5EFA, 0x8BAE, 0x8865, 0x5145, 0xFF1A] @
     join COMMA_SPACE (take 3 core_missing)"

text \<open>
  \<open>percent\<close> stands for the rendering \<^verbatim>\<open>{overlap_rate:.1%}\<close> of a Python float, a routine of
  the language that works on the binary value; it is a parameter of the model.
\<close>

definition overlap_reason :: "(rat \<Rightarrow> str) \<Rightarrow> rat \<Rightarrow> str" where
  "overlap_reason percent overlap_rate =
     [0x67E5, 0x52D8, 0x6458, 0x8981, 0x4E0E, 0x62A5, 0x6848, 0x6458, 0x8981, 0x91CD, 0x5408,
      0x7387, 0x8FC7, 0x9AD8, 0xFF08] @ percent overlap_rate @
     [0xFF09, 0xFF0C, 0x7F3A, 0x4E4F, 0x72EC, 0x7ACB, 0x8C03, 0x67E5, 0x4FE1, 0x606F]"

text \<open>Lines 197-228: the list \<^verbatim>\<open>reasons\<close> as it stands before the final test.\<close>

definition case_reasons :: "(rat \<Rightarrow> str) \<Rightarrow> row \<Rightarrow> py_error + str list" where
  "case_reasons percent r =
     (let insurance_type = row_get (col_insurance_type r) (Some []);
          accident_time = row_get (col_accident_time r) NaT;
          report_time = row_get (col_report_time r) NaT;
          report_summary = row_get (col_report_summary r) (Some []);
          survey_summary = row_get (col_survey_summary r) (Some []);
          category = classify_insurance insurance_type;
          reasons = [];
          (mandatory_pass, mandatory_missing) = check_mandatory survey_summary;
          reasons = (if \<not> mandatory_pass then reasons @ [mandatory_reason mandatory_missing]
                     else reasons);
          (delay_triggered, delay_pass, delay_reason) =
             check_delay accident_time report_time survey_summary;
          reasons = (if delay_triggered \<and> \<not> delay_pass then reasons @ [delay_reason]
                     else reasons)
      in case check_core_elements category survey_summary of
           Inl e \<Rightarrow> Inl e
         | Inr (core_pass, core_count, core_missing) \<Rightarrow>
             (case (if \<not> core_pass then
                      (case core_elements_of category of
                         Inl e \<Rightarrow> Inl e
                       | Inr elements \<Rightarrow>
                           Inr (reasons @
                             [core_reason (min 3 (length elements)) core_count core_missing]))
                    else Inr reasons) of
                Inl e \<Rightarrow> Inl e
              | Inr reasons \<Rightarrow>
                  (case check_overlap report_summary survey_summary of
                     Inl e \<Rightarrow> Inl e
                   | Inr (overlap_pass, overlap_rate) \<Rightarrow>
                       Inr (if \<not> overlap_pass
                            then reasons @ [overlap_reason percent overlap_rate]
                            else reasons))))"

text \<open>Lines 231-234: the verdict and the joined reasons.\<close>

definition evaluate_case :: "(rat \<Rightarrow> str) \<Rightarrow> row \<Rightarrow> py_error + (str \<times> str)" where
  "evaluate_case percent r =
     (case case_reasons percent r of
        Inl e \<Rightarrow> Inl e
      | Inr reasons \<Rightarrow>
          Inr (if reasons \<noteq> [] then (UNQUALIFIED, join REASON_SEP reasons)
               else (QUALIFIED, [])))"

subsection \<open>\<^verbatim>\<open>create_summary_sheet\<close> (lines 237-271)\<close>

text \<open>
  The data frame is read through its two columns, institution and verdict, one pair per
  case. A summary row carries the institution and the two counts; the rate column is a
  function of the two counts of its row and is modelled apart, by \<open>rate_column\<close> below.

  \<^verbatim>\<open>groupby\<close> yields one group per institution, in ascending order of the institution names
  (its default \<^verbatim>\<open>sort=True\<close>), with the number of cases and the number of cases whose
  verdict is \<open>QUALIFIED\<close>.
\<close>

record summary_row =
  institution :: str
  total_cases :: nat
  qualified_cases :: nat

definition TOTAL_LABEL :: str where
  "TOTAL_LABEL = [0x5408, 0x8BA1]"

definition groupby_institution :: "(str \<times> str) list \<Rightarrow> summary_row list" where
  "groupby_institution df =
     map (\<lambda>name.
            \<lparr>institution = name,
             total_cases = length (filter (\<lambda>c. fst c = name) df),
             qualified_cases = length (filter (\<lambda>c. fst c = name \<and> snd c = QUALIFIED) df)\<rparr>)
         (sort (remdups (map fst df)))"

text \<open>\<^verbatim>\<open>list.index\<close> raises \<^verbatim>\<open>ValueError\<close> when the value is not in the list.\<close>

fun list_index :: "'a list \<Rightarrow> 'a \<Rightarrow> py_error + nat" where
  "list_index [] x = Inl ValueError"
| "list_index (y # ys) x =
     (if y = x then Inr 0
      else case list_index ys x of Inl e \<Rightarrow> Inl e | Inr n \<Rightarrow> Inr (Suc n))"

text \<open>\<^verbatim>\<open>sort_key\<close> (lines 248-252), with its \<^verbatim>\<open>except ValueError\<close>.\<close>

definition sort_key_institution :: "str \<Rightarrow> nat" where
  "sort_key_institution name =
     (case list_index INSTITUTION_ORDER name of
        Inr n \<Rightarrow> n
      | Inl e \<Rightarrow> length INSTITUTION_ORDER)"

text \<open>
  \<^verbatim>\<open>sort_values\<close> orders the groups by the key. It is modelled by the insertion sort
  \<^const>\<open>sort_key\<close>, which keeps groups of equal key in the order they had. pandas sorts with
  its default \<^verbatim>\<open>quicksort\<close>, which promises nothing for equal keys; only institutions not
  in \<^verbatim>\<open>INSTITUTION_ORDER\<close> share a key. What is proved of the summary below holds for
  every way of placing them: \<open>summary_sheet_sorted_by\<close> is the same function with any
  method of sorting in place of the insertion sort, and the properties are proved of it
  too (\<open>summary_sheet_any_sort\<close>).
\<close>

definition create_summary_sheet :: "(str \<times> str) list \<Rightarrow> summary_row list" where
  "create_summary_sheet df =
     (let summary = groupby_institution df;
          summary = sort_key (\<lambda>g. sort_key_institution (institution g)) summary;
          total_row =
            \<lparr>institution = TOTAL_LABEL,
             total_cases = sum_list (map total_cases summary),
             qualified_cases = sum_list (map qualified_cases summary)\<rparr>
      in summary @ [total_row])"

text \<open>
  A method of sorting by a key returns its input rearranged, in ascending order of the
  key; nothing more is asked of it.
\<close>

definition sorts_by_key ::
    "((summary_row \<Rightarrow> nat) \<Rightarrow> summary_row list \<Rightarrow> summary_row list) \<Rightarrow> bool" where
  "sorts_by_key sorter \<longleftrightarrow>
     (\<forall>key rows. mset (sorter key rows) = mset rows \<and> sorted (map key (sorter key rows)))"

definition summary_sheet_sorted_by ::
    "((summary_row \<Rightarrow> nat) \<Rightarrow> summary_row list \<Rightarrow> summary_row list) \<Rightarrow>
     (str \<times> str) list \<Rightarrow> summary_row list" where
  "summary_sheet_sorted_by sorter df =
     (let summary = groupby_institution df;
          summary = sorter (\<lambda>g. sort_key_institution (institution g)) summary;
          total_row =
            \<lparr>institution = TOTAL_LABEL,
             total_cases = sum_list (map total_cases summary),
             qualified_cases = sum_list (map qualified_cases summary)\<rparr>
      in summary @ [total_row])"

subsection \<open>The rate column (lines 245 and 260)\<close>

text \<open>
  The rates are computed in binary floating point (IEEE binary64). A finite float is a
  rational, and each operation returns the float nearest to the exact result, the one
  with the even significand when two are equally near. \<open>binary64 x\<close> is that float: with
  \<open>2 ^ e \<le> \<bar>x\<bar> < 2 ^ (e + 1)\<close>, the multiple of \<open>2 ^ (e - 52)\<close> nearest to \<open>x\<close>. The
  limits of the exponent are not modelled; the values here lie between \<open>2 ^ - 63\<close> and
  1000.
\<close>

definition round_half_even :: "rat \<Rightarrow> int" where
  "round_half_even x =
     (let n = \<lfloor>x\<rfloor>; r = x - of_int n
      in if r < 1 / 2 then n else if 1 / 2 < r then n + 1 else if even n then n else n + 1)"

definition ilog2 :: "rat \<Rightarrow> int" where
  "ilog2 x =
     (let (a, b) = quotient_of x; e = bitlen a - bitlen b
      in if 2 powi e \<le> x then e else e - 1)"

definition binary64 :: "rat \<Rightarrow> rat" where
  "binary64 x =
     (if x = 0 then 0
      else (let ulp = 2 powi (ilog2 \<bar>x\<bar> - 52) in of_int (round_half_even (x / ulp)) * ulp))"

text \<open>
  \<^verbatim>\<open>qualified / total * 100\<close>, on two integer counts with the total not 0: the counts are
  converted to floats, divided, and the quotient is multiplied by 100.
\<close>

definition rate_percent :: "nat \<Rightarrow> nat \<Rightarrow> rat" where
  "rate_percent n_qualified n_total =
     binary64 (binary64 (binary64 (of_nat n_qualified) / binary64 (of_nat n_total)) * 100)"

text \<open>A number of tenths, not negative, written with one decimal.\<close>

definition tenths_text :: "int \<Rightarrow> str" where
  "tenths_text m = str_int (m div 10) @ [0x2E] @ str_int (m mod 10)"

text \<open>
  Line 245, for the row of a group: \<^verbatim>\<open>.round(1)\<close> is numpy's, which multiplies by 10,
  rounds the product (a float) to the nearest integer, to the even one at a tie, and
  divides by 10; \<^verbatim>\<open>.astype(str)\<close> writes the resulting float, the one nearest to that
  number of tenths, as the shortest decimal that reads back as the same float, which is
  the number of tenths with one decimal. A group has at least one case; on the counts 0
  and 0 the division of the two columns gives \<^verbatim>\<open>nan\<close>, on a positive count and 0 it
  gives \<^verbatim>\<open>inf\<close>.
\<close>

definition group_rate_text :: "nat \<Rightarrow> nat \<Rightarrow> str" where
  "group_rate_text n_qualified n_total =
     (if n_total = 0 then
        (if n_qualified = 0 then [0x6E, 0x61, 0x6E, 0x25] else [0x69, 0x6E, 0x66, 0x25])
      else
        tenths_text (round_half_even (binary64 (rate_percent n_qualified n_total * 10))) @
        [0x25])"

text \<open>
  Line 260, for the total row: the format \<^verbatim>\<open>.1f\<close> writes the decimal with one digit
  after the point that is nearest to the exact value of the float, the even one at a tie.
\<close>

definition total_rate_text :: "nat \<Rightarrow> nat \<Rightarrow> str" where
  "total_rate_text n_qualified n_total =
     (if n_total > 0 then
        tenths_text (round_half_even (rate_percent n_qualified n_total * 10)) @ [0x25]
      else [0x30, 0x25])"

text \<open>The rate column of the summary: the rates of the groups, then the rate of the total row.\<close>

definition rate_column :: "(str \<times> str) list \<Rightarrow> str list" where
  "rate_column df =
     (let rows = create_summary_sheet df;
          summary = butlast rows;
          total_row = last rows
      in map (\<lambda>g. group_rate_text (qualified_cases g) (total_cases g)) summary @
         [total_rate_text (qualified_cases total_row) (total_cases total_row)])"

subsection \<open>Vocabulary of the properties\<close>

text \<open>
  The two character pairs that line 152 rewrites, and the strings that contain neither
  (on which the pattern is the string itself).
\<close>

definition suffix_pair :: "nat \<Rightarrow> nat \<Rightarrow> bool" where
  "suffix_pair a b \<longleftrightarrow> (a = 0x7C7B \<and> b = 0x578B) \<or> (a = 0x65B9 \<and> b = 0x5F0F)"

fun plain :: "str \<Rightarrow> bool" where
  "plain (a # b # s) = (\<not> suffix_pair a b \<and> plain (b # s))"
| "plain s = True"

text \<open>
  The relaxed matching as the specification words it, for comparison with
  \<open>fuzzy_pattern\<close>: "a bounded wildcard gap before an optional literal repeat of the
  suffix", so the gap and then the whole pair, optionally. \<open>spec_check_core_elements\<close> is
  the matcher of the specification built on it.
\<close>

fun spec_fuzzy_pattern :: "str \<Rightarrow> regex" where
  "spec_fuzzy_pattern [] = Lit []"
| "spec_fuzzy_pattern [a] = Lit [a]"
| "spec_fuzzy_pattern (a # b # s) =
     (if suffix_pair a b then Seq (Dots 2) (Seq (Opt (Lit [a, b])) (spec_fuzzy_pattern s))
      else Seq (Lit [a]) (spec_fuzzy_pattern (b # s)))"

definition spec_element_matches :: "str \<Rightarrow> str \<Rightarrow> bool" where
  "spec_element_matches element t \<longleftrightarrow>
     sublist element t \<or> re_search (spec_fuzzy_pattern element) t"

definition spec_check_core_elements :: "str \<Rightarrow> str option \<Rightarrow> bool \<times> nat \<times> str list" where
  "spec_check_core_elements category survey_summary =
     (let elements =
            (case map_of CORE_ELEMENTS category of
               Some own \<Rightarrow> own
             | None \<Rightarrow> [[0x635F, 0x5931, 0x7C7B, 0x578B], [0x540E, 0x7EED, 0x5904, 0x7406]])
      in case survey_summary of
           None \<Rightarrow> (False, 0, elements)
         | Some t \<Rightarrow>
             (let matched_count = length (filter (\<lambda>e. spec_element_matches e t) elements)
              in (matched_count \<ge> min 3 (length elements), matched_count,
                  filter (\<lambda>e. \<not> spec_element_matches e t) elements)))"

text \<open>
  The order "by first encounter" of the specification: each value once, at the place
  of its first occurrence. An institution is unlisted when \<^verbatim>\<open>INSTITUTION_ORDER\<close> does not
  hold it.
\<close>

definition first_encounter :: "'a list \<Rightarrow> 'a list" where
  "first_encounter xs = rev (remdups (rev xs))"

definition unlisted :: "str \<Rightarrow> bool" where
  "unlisted name \<longleftrightarrow> name \<notin> set INSTITUTION_ORDER"

section \<open>Properties\<close>

subsection \<open>Classification\<close>

lemma scan_keywords_iff: "scan_keywords ks s \<longleftrightarrow> list_ex (\<lambda>k. sublist k s) ks"
  by (induction ks) simp_all

lemma scan_categories_find:
  "scan_categories tab s =
     (case find (\<lambda>(c, ks). list_ex (\<lambda>k. sublist k s) ks) tab of
        None \<Rightarrow> cat_other
      | Some (c, ks) \<Rightarrow> c)"
  by (induction tab s rule: scan_categories.induct) (simp_all add: scan_keywords_iff)

text \<open>
  C3. \<open>classify_insurance\<close> is a function of the insurance type alone. An absent type
  gives the category "other" (\<open>cat_other\<close>). A text gives the category of the first
  entry of the table, in declared order, one of whose keywords occurs in the text as a
  substring, and "other" when no entry has such a keyword. The table is the one the source
  declares, with the category "other" not among its keys.
\<close>

theorem classify_insurance_first_match:
  "classify_insurance None = cat_other \<and>
   classify_insurance (Some s) =
     (case find (\<lambda>(category, keywords). list_ex (\<lambda>k. sublist k s) keywords)
             INSURANCE_CATEGORIES of
        None \<Rightarrow> cat_other
      | Some (category, keywords) \<Rightarrow> category) \<and>
   map fst INSURANCE_CATEGORIES =
     [cat_employer, cat_safety, cat_accident, cat_illness, cat_property,
      cat_engineering, cat_public]"
proof -
  have tab: "map fst INSURANCE_CATEGORIES =
     [cat_employer, cat_safety, cat_accident, cat_illness, cat_property,
      cat_engineering, cat_public]"
    by (simp add: INSURANCE_CATEGORIES_def cat_employer_def cat_safety_def cat_accident_def
        cat_illness_def cat_property_def cat_engineering_def cat_public_def)
  show ?thesis
    by (simp add: classify_insurance_def scan_categories_find tab)
qed

text \<open>
  Three insurance types. The first holds a keyword of the safety category and the keyword
  of the accident category; the safety category is declared first and wins. The second
  holds the accident keyword only. The third holds no keyword.
\<close>

lemma classify_insurance_examples:
  "classify_insurance (Some [0x5EFA, 0x5DE5, 0x56E2, 0x610F, 0x5916, 0x9669]) = cat_safety"
  "classify_insurance (Some [0x56E2, 0x4F53, 0x610F, 0x5916, 0x9669]) = cat_accident"
  "classify_insurance (Some [0x8F66, 0x9669]) = cat_other"
  by (simp_all add: classify_insurance_def INSURANCE_CATEGORIES_def cat_safety_def
      cat_accident_def cat_other_def sublist_code)

subsection \<open>The pattern matcher\<close>

text \<open>
  \<open>rmatch\<close> returns exactly the remainders left by the words of the pattern, so a search
  succeeds exactly when the text contains a word of the pattern.
\<close>

lemma dots_set:
  "set (dots n s) = {s'. \<exists>g. s = g @ s' \<and> length g \<le> n \<and> 0x0A \<notin> set g}"
proof (induction n s rule: dots.induct)
  case (1 s)
  then show ?case by auto
next
  case (2 n)
  then show ?case by auto
next
  case (3 n c s)
  show ?case
  proof (cases "c = 0x0A")
    case True
    have "\<And>g s'. c # s = g @ s' \<Longrightarrow> 0x0A \<notin> set g \<Longrightarrow> g = []"
      using True by (metis append_Cons list.exhaust list.inject list.set_intros(1))
    then show ?thesis using True by auto
  next
    case False
    have "{s'. \<exists>g. c # s = g @ s' \<and> length g \<le> Suc n \<and> 0x0A \<notin> set g} =
          insert (c # s) {s'. \<exists>g. s = g @ s' \<and> length g \<le> n \<and> 0x0A \<notin> set g}"
      (is "?L = ?R")
    proof (intro set_eqI iffI)
      fix s' assume "s' \<in> ?L"
      then obtain g where g: "c # s = g @ s'" "length g \<le> Suc n" "0x0A \<notin> set g" by blast
      show "s' \<in> ?R"
      proof (cases g)
        case Nil
        then show ?thesis using g by simp
      next
        case (Cons a g')
        then show ?thesis using g by auto
      qed
    next
      fix s' assume "s' \<in> ?R"
      then consider "s' = c # s" | g where "s = g @ s'" "length g \<le> n" "0x0A \<notin> set g" by blast
      then show "s' \<in> ?L"
      proof cases
        case 1
        then show ?thesis by (auto intro: exI[of _ "[]"])
      next
        case 2
        then show ?thesis using False by (auto intro!: exI[of _ "c # g"])
      qed
    qed
    then show ?thesis using False 3 by simp
  qed
qed

lemma rmatch_set: "set (rmatch r s) = {s'. \<exists>w\<in>lang r. s = w @ s'}"
proof (induction r arbitrary: s)
  case (Lit w)
  then show ?case by (auto simp: prefix_def)
next
  case (Dots n)
  then show ?case by (auto simp: dots_set)
next
  case (Seq a b)
  then show ?case by (fastforce simp: )
next
  case (Alt a b)
  then show ?case by auto
next
  case (Opt a)
  then show ?case by auto
qed

lemma re_search_iff: "re_search r t \<longleftrightarrow> (\<exists>w\<in>lang r. sublist w t)"
proof -
  have "re_search r t \<longleftrightarrow> (\<exists>s. suffix s t \<and> set (rmatch r s) \<noteq> {})"
    by (auto simp: re_search_def list_ex_iff)
  also have "\<dots> \<longleftrightarrow> (\<exists>s. suffix s t \<and> (\<exists>w\<in>lang r. prefix w s))"
    by (auto simp: rmatch_set prefix_def)
  also have "\<dots> \<longleftrightarrow> (\<exists>w\<in>lang r. sublist w t)"
    by (auto simp: sublist_altdef')
  finally show ?thesis .
qed

lemma mandatory_loop_filter:
  "mandatory_loop tab t missing =
     missing @ map fst (filter (\<lambda>(item, pattern). \<not> re_search pattern t) tab)"
  by (induction tab t missing rule: mandatory_loop.induct) simp_all



text \<open>Evaluation of \<open>dots\<close> at a numeral.\<close>

lemma dots_numeral [simp]:
  "dots (numeral k) [] = [[]]"
  "dots (numeral k) (c # s) =
     (if c = 0x0A then [c # s] else (c # s) # dots (pred_numeral k) s)"
  by (simp_all add: numeral_eq_Suc)

subsection \<open>Mandatory items\<close>

text \<open>
  C7. On an absent survey summary \<open>check_mandatory\<close> fails and reports all five items as
  missing, in the order they are declared. On a text it reports as missing exactly the
  items whose own pattern is not found in the text, in declared order, and passes exactly
  when that list is empty.
\<close>

theorem check_mandatory_missing_items:
  "check_mandatory None =
     (False, [item_survey_time, item_survey_place, item_survey_method,
              item_accident_time, item_accident_place]) \<and>
   map fst MANDATORY_PATTERNS =
     [item_survey_time, item_survey_place, item_survey_method,
      item_accident_time, item_accident_place] \<and>
   check_mandatory (Some t) =
     (let missing =
        map fst (filter (\<lambda>(item, pattern). \<not> re_search pattern t) MANDATORY_PATTERNS)
      in (missing = [], missing))"
proof -
  have items: "map fst MANDATORY_PATTERNS =
     [item_survey_time, item_survey_place, item_survey_method,
      item_accident_time, item_accident_place]"
    by (simp add: MANDATORY_PATTERNS_def)
  show ?thesis
    by (simp add: check_mandatory_def mandatory_loop_filter items Let_def)
qed


text \<open>
  A text with one phrase for each of the five items passes; without the phrase of the
  survey method, that item alone is missing.
\<close>

lemma check_mandatory_examples:
  "check_mandatory
     (Some [0x67E5, 0x52D8, 0x65F6, 0x95F4, 0x67E5, 0x52D8, 0x5730, 0x70B9, 0x73B0, 0x573A,
            0x51FA, 0x9669, 0x65F6, 0x95F4, 0x51FA, 0x9669, 0x5730, 0x70B9]) = (True, [])"
  "check_mandatory
     (Some [0x67E5, 0x52D8, 0x65F6, 0x95F4, 0x67E5, 0x52D8, 0x5730, 0x70B9,
            0x51FA, 0x9669, 0x65F6, 0x95F4, 0x51FA, 0x9669, 0x5730, 0x70B9]) =
     (False, [item_survey_method])"
  by (simp_all add: check_mandatory_def MANDATORY_PATTERNS_def re_search_def Let_def)

subsection \<open>Report delay\<close>

lemmas check_delay_defs =
  check_delay_def check_delay_try_def to_timestamp_def timestamp_sub_def timedelta_days_def
  days_le_def str_days_def in_int64_def INT64_MAX_def NS_PER_DAY_def



text \<open>
  A delay of 7 days is not triggered. A delay of 9 days is triggered: it fails on a text
  without keyword, with the 9 in the reason, and passes on a text with the keyword
  \<^verbatim>\<open>U+6838 U+5B9E\<close>. A report 9 days before the accident is not triggered. Two times more
  than \<open>2 ^ 63\<close> nanoseconds apart are not triggered: the subtraction raises.
\<close>

lemma check_delay_examples:
  "check_delay (Time 0 False) (Time (7 * NS_PER_DAY) False) (Some []) = (False, True, [])"
  "check_delay (Time 0 False) (Time (9 * NS_PER_DAY) False) (Some [0x7532]) =
     (True, False, DELAY_MSG @ [0x39] @ DELAY_MSG_NOT_EXPLAINED)"
  "check_delay (Time 0 True) (Time (9 * NS_PER_DAY) True) (Some [0x5DF2, 0x6838, 0x5B9E]) =
     (True, True, [])"
  "check_delay (Time (9 * NS_PER_DAY) False) (Time 0 False) None = (False, True, [])"
  "check_delay (Time (- INT64_MAX) False) (Time INT64_MAX False) None = (False, True, [])"
  by (simp_all add: check_delay_defs DELAY_KEYWORDS_def str_int_def sublist_code)

subsection \<open>Error handling of the rules\<close>

lemma core_elements_of_other:
  "dict_item CORE_ELEMENTS cat_other =
     Inr [[0x635F, 0x5931, 0x7C7B, 0x578B], [0x540E, 0x7EED, 0x5904, 0x7406]]"
  by (simp add: dict_item_def CORE_ELEMENTS_def cat_other_def)

lemma core_elements_of_total: "\<exists>elements. core_elements_of category = Inr elements"
  by (simp add: core_elements_of_def core_elements_of_other)

lemma check_overlap_total: "\<exists>r. check_overlap report survey = Inr r"
  by (cases report; cases survey)
     (auto simp: check_overlap_def Let_def py_truediv_def)

lemma check_core_elements_total: "\<exists>r. check_core_elements category survey = Inr r"
proof -
  obtain elements where "core_elements_of category = Inr elements"
    using core_elements_of_total by blast
  then show ?thesis
    by (cases survey) (auto simp: check_core_elements_def Let_def split: prod.splits)
qed


text \<open>
  What holds of the error handling. When either time is missing, or the parser raises on
  either, \<open>check_delay\<close> returns "not triggered, passed" with no reason: the exception is
  caught and gives the result of a missing time. \<open>check_core_elements\<close> finds its default
  list in the table and \<open>check_overlap\<close> divides by a positive size only, so neither
  raises. \<open>check_mandatory\<close> has no operation that can raise on a text or a missing cell.
\<close>

lemma check_delay_fail_open:
  "check_delay NaT report_time survey = (False, True, [])"
  "check_delay accident_time NaT survey = (False, True, [])"
  "check_delay Unparsable report_time survey = (False, True, [])"
  "check_delay accident_time Unparsable survey = (False, True, [])"
proof -
  show "check_delay NaT report_time survey = (False, True, [])"
    by (simp add: check_delay_def check_delay_try_def)
  show "check_delay accident_time NaT survey = (False, True, [])"
    by (simp add: check_delay_def check_delay_try_def)
  show "check_delay Unparsable report_time survey = (False, True, [])"
    by (simp add: check_delay_def check_delay_try_def to_timestamp_def)
  show "check_delay accident_time Unparsable survey = (False, True, [])"
    by (cases accident_time) (simp_all add: check_delay_def check_delay_try_def to_timestamp_def)
qed

text \<open>
  C9: the code breaks the claim. The claim is that a time that is absent or cannot be
  parsed makes \<open>check_delay\<close> return "not triggered, passed". The code tests for a
  missing cell (line 100) and catches what the parser raises (line 131); it misses the
  text that the parser turns into \<^verbatim>\<open>NaT\<close> without raising, such as the text \<^verbatim>\<open>NaT\<close>. With
  such an accident time (or report time) and any parsed time on the other side, the
  difference is \<^verbatim>\<open>NaT\<close>, its \<^verbatim>\<open>.days\<close> is \<^verbatim>\<open>nan\<close>, the test \<^verbatim>\<open>nan <= 7\<close> is false, and the
  delay counts as triggered: with no survey summary the rule fails, with the text \<^verbatim>\<open>nan\<close>
  for the number of days in its reason.
\<close>

theorem check_delay_nat_text:
  "check_delay NaTText (Time 0 False) None =
     (True, False, DELAY_MSG @ [0x6E, 0x61, 0x6E] @ DELAY_MSG_NOT_FILLED) \<and>
   check_delay (Time 0 False) NaTText None =
     (True, False, DELAY_MSG @ [0x6E, 0x61, 0x6E] @ DELAY_MSG_NOT_FILLED) \<and>
   check_delay NaTText (Time 0 False) (Some []) =
     (True, False, DELAY_MSG @ [0x6E, 0x61, 0x6E] @ DELAY_MSG_NOT_EXPLAINED)"
  by (simp add: check_delay_defs DELAY_KEYWORDS_def)

subsection \<open>Core elements\<close>

lemma core_loop_filter:
  "core_loop elements t (matched, missing) =
     (matched @ filter (\<lambda>e. element_matches e t) elements,
      missing @ filter (\<lambda>e. \<not> element_matches e t) elements)"
  by (induction elements t "(matched, missing)" arbitrary: matched missing rule: core_loop.induct)
     simp_all

lemma check_core_elements_Some:
  assumes "core_elements_of category = Inr elements"
  shows "check_core_elements category (Some t) =
     Inr (min 3 (length elements) \<le> length (filter (\<lambda>e. element_matches e t) elements),
          length (filter (\<lambda>e. element_matches e t) elements),
          filter (\<lambda>e. \<not> element_matches e t) elements)"
  using assms by (simp add: check_core_elements_def core_loop_filter Let_def)


text \<open>
  C10. For every category and every survey text, \<open>check_core_elements\<close> splits the
  category's element list: the number of matched elements plus the number of missing
  ones is the length of the list, the missing elements are a subsequence of the list in
  its declared order, and no missing element occurs in the text as a substring.
\<close>

theorem core_elements_partition:
  "\<exists>elements passed matched_count missing.
     core_elements_of category = Inr elements \<and>
     check_core_elements category (Some t) = Inr (passed, matched_count, missing) \<and>
     matched_count + length missing = length elements \<and>
     subseq missing elements \<and>
     list_all (\<lambda>element. \<not> sublist element t) missing"
proof -
  obtain elements where els: "core_elements_of category = Inr elements"
    using core_elements_of_total by blast
  let ?matched = "filter (\<lambda>e. element_matches e t) elements"
  let ?missing = "filter (\<lambda>e. \<not> element_matches e t) elements"
  have "length ?matched + length ?missing = length elements"
    by (rule sum_length_filter_compl)
  moreover have "subseq ?missing elements"
    by simp
  moreover have "list_all (\<lambda>element. \<not> sublist element t) ?missing"
    by (simp add: list_all_iff element_matches_def)
  ultimately show ?thesis
    using els check_core_elements_Some [OF els, of t] by blast
qed


text \<open>
  The accident category, on a text made of its first and third elements: two matched, the
  second and fourth missing.
\<close>

theorem core_elements_partition_witness:
  "core_elements_of cat_accident =
     Inr [[0x4F24, 0x60C5], [0x90E8, 0x4F4D], [0x533B, 0x9662], [0x804C, 0x4E1A]] \<and>
   check_core_elements cat_accident (Some [0x4F24, 0x60C5, 0x533B, 0x9662]) =
     Inr (False, 2, [[0x90E8, 0x4F4D], [0x804C, 0x4E1A]])"
proof -
  have els: "core_elements_of cat_accident =
     Inr [[0x4F24, 0x60C5], [0x90E8, 0x4F4D], [0x533B, 0x9662], [0x804C, 0x4E1A]]"
    by (simp add: core_elements_of_def dict_item_def dict_get_def CORE_ELEMENTS_def
        cat_accident_def cat_other_def)
  obtain elements passed matched_count missing where
    w: "core_elements_of cat_accident = Inr elements"
       "check_core_elements cat_accident (Some [0x4F24, 0x60C5, 0x533B, 0x9662]) =
          Inr (passed, matched_count, missing)"
       "matched_count + length missing = length elements"
       "subseq missing elements"
       "list_all (\<lambda>element. \<not> sublist element [0x4F24, 0x60C5, 0x533B, 0x9662]) missing"
    using core_elements_partition [of cat_accident "[0x4F24, 0x60C5, 0x533B, 0x9662]"] by blast
  have "check_core_elements cat_accident (Some [0x4F24, 0x60C5, 0x533B, 0x9662]) =
     Inr (False, 2, [[0x90E8, 0x4F4D], [0x804C, 0x4E1A]])"
    by (simp add: check_core_elements_def els element_matches_def re_search_def sublist_code)
  with els w show ?thesis by simp
qed


subsection \<open>Overlap of the two summaries\<close>

lemma set_strip: "set (strip s) \<subseteq> set s"
proof -
  have "set (strip s) = set (dropWhile isspace (rev (dropWhile isspace s)))"
    by (simp add: strip_def)
  also have "\<dots> \<subseteq> set (rev (dropWhile isspace s))"
    by (auto dest: set_dropWhileD)
  also have "\<dots> \<subseteq> set s"
    by (auto dest: set_dropWhileD)
  finally show ?thesis .
qed

lemma card_inter_le_max:
  "card (set a \<inter> set b) \<le> max (card (set a)) (card (set b))"
  by (meson List.finite_set card_mono inf_le1 le_max_iff_disj)


text \<open>
  C6. When either summary is absent, or empty once trimmed, \<open>check_overlap\<close> passes with
  rate 0. Otherwise the rate is the number of distinct characters the two trimmed texts
  share, divided by the larger of their numbers of distinct characters; it lies between 0
  and 1, and the rule passes exactly when the rate is below \<open>4/5\<close>. A text compared with
  itself, not empty once trimmed, has rate 1 and fails; two texts with no character in
  common pass with rate 0.
\<close>

theorem check_overlap_rate:
  "check_overlap None survey = Inr (True, 0) \<and>
   check_overlap report None = Inr (True, 0) \<and>
   (let report_chars = set (strip r);
        survey_chars = set (strip s);
        overlap_rate =
          of_nat (card (report_chars \<inter> survey_chars)) /
          of_nat (max (card report_chars) (card survey_chars))
    in check_overlap (Some r) (Some s) =
         Inr (if strip r = [] \<or> strip s = [] then (True, 0)
              else (overlap_rate < 4 / 5, overlap_rate)) \<and>
       0 \<le> overlap_rate \<and> overlap_rate \<le> 1) \<and>
   check_overlap (Some r) (Some r) = Inr (if strip r = [] then (True, 0) else (False, 1)) \<and>
   (set r \<inter> set s = {} \<longrightarrow> check_overlap (Some r) (Some s) = Inr (True, 0))"
proof -
  let ?R = "set (strip r)" and ?S = "set (strip s)"
  let ?rate = "(of_nat (card (?R \<inter> ?S)) :: rat) / of_nat (max (card ?R) (card ?S))"
  have 1: "check_overlap None survey = Inr (True, 0)"
    by (simp add: check_overlap_def)
  have 2: "check_overlap report None = Inr (True, 0)"
    by (cases report) (simp_all add: check_overlap_def)
  have pos: "0 < card (set x)" if "x \<noteq> []" for x :: str
    using that by (simp add: card_gt_0_iff)
  have 3: "check_overlap (Some r) (Some s) =
         Inr (if strip r = [] \<or> strip s = [] then (True, 0) else (?rate < 4 / 5, ?rate))"
    using pos [of "strip r"] by (simp add: check_overlap_def Let_def py_truediv_def)
  have 4: "0 \<le> ?rate" by simp
  have 5: "?rate \<le> 1"
  proof (cases "max (card ?R) (card ?S) = 0")
    case True
    then show ?thesis by simp
  next
    case False
    then have "0 < max (card ?R) (card ?S)"
      by (metis not_gr_zero)
    then have m: "(0::rat) < of_nat (max (card ?R) (card ?S))"
      by (simp only: of_nat_0_less_iff)
    have "(of_nat (card (?R \<inter> ?S)) :: rat) \<le> of_nat (max (card ?R) (card ?S))"
      using card_inter_le_max [of "strip r" "strip s"] by (simp only: of_nat_le_iff)
    then show ?thesis
      by (simp only: divide_le_eq_1_pos [OF m])
  qed
  have 6: "check_overlap (Some r) (Some r) =
      Inr (if strip r = [] then (True, 0) else (False, 1))"
    using pos [of "strip r"] by (simp add: check_overlap_def Let_def py_truediv_def)
  have 7: "check_overlap (Some r) (Some s) = Inr (True, 0)" if "set r \<inter> set s = {}"
  proof -
    have "?R \<inter> ?S = {}"
      using that set_strip [of r] set_strip [of s] by blast
    then show ?thesis
      using pos [of "strip r"] by (simp add: check_overlap_def Let_def py_truediv_def)
  qed
  show ?thesis
    unfolding Let_def using 1 2 3 4 5 6 7 by blast
qed


text \<open>The texts \<^verbatim>\<open>AB\<close> and \<^verbatim>\<open> C\<close> share no character; \<^verbatim>\<open>AB\<close> against itself fails.\<close>

theorem check_overlap_rate_witness:
  "set [0x41, 0x42] \<inter> set [0x20, 0x43 :: nat] = {} \<and>
   check_overlap (Some [0x41, 0x42]) (Some [0x20, 0x43]) = Inr (True, 0) \<and>
   check_overlap (Some [0x41, 0x42]) (Some [0x41, 0x42]) = Inr (False, 1)"
proof -
  have d: "set [0x41, 0x42] \<inter> set [0x20, 0x43 :: nat] = {}" by simp
  have s: "strip [0x41, 0x42] \<noteq> []" by (simp add: strip_def isspace_def)
  note t = check_overlap_rate [of None None "[0x41, 0x42]" "[0x20, 0x43]"]
  from t d have a: "check_overlap (Some [0x41, 0x42]) (Some [0x20, 0x43]) = Inr (True, 0)"
    by blast
  from t s have b: "check_overlap (Some [0x41, 0x42]) (Some [0x41, 0x42]) = Inr (False, 1)"
    by simp
  from d a b show ?thesis by blast
qed



subsection \<open>The verdict of a case\<close>

text \<open>
  C1. \<open>evaluate_case\<close> runs the four rules on the fields of the row, each on its own
  inputs and whatever the others return. The list of reasons is the concatenation, in the
  order mandatory items, delay, core elements, overlap, of one reason for each rule that
  fails, where the delay rule fails only when it is triggered and not passed. The verdict
  is \<open>QUALIFIED\<close> with an empty reason text exactly when all four rules pass, which
  is exactly when the list of reasons is empty; otherwise it is \<open>UNQUALIFIED\<close> with the
  reasons joined in that order.
\<close>

theorem evaluate_case_verdict:
  "let survey = row_get (col_survey_summary r) (Some []);
       report = row_get (col_report_summary r) (Some []);
       category = classify_insurance (row_get (col_insurance_type r) (Some []));
       (mandatory_pass, mandatory_missing) = check_mandatory survey;
       (delay_triggered, delay_pass, delay_reason) =
          check_delay (row_get (col_accident_time r) NaT) (row_get (col_report_time r) NaT) survey
   in \<exists>core_pass core_count core_missing overlap_pass overlap_rate elements.
        check_core_elements category survey = Inr (core_pass, core_count, core_missing) \<and>
        core_elements_of category = Inr elements \<and>
        check_overlap report survey = Inr (overlap_pass, overlap_rate) \<and>
        (let reasons =
               (if mandatory_pass then [] else [mandatory_reason mandatory_missing]) @
               (if delay_triggered \<and> \<not> delay_pass then [delay_reason] else []) @
               (if core_pass then []
                else [core_reason (min 3 (length elements)) core_count core_missing]) @
               (if overlap_pass then [] else [overlap_reason percent overlap_rate]);
             all_pass =
               (mandatory_pass \<and> \<not> (delay_triggered \<and> \<not> delay_pass) \<and> core_pass \<and>
                overlap_pass)
         in case_reasons percent r = Inr reasons \<and>
            evaluate_case percent r =
              Inr (if all_pass then (QUALIFIED, [])
                   else (UNQUALIFIED, join REASON_SEP reasons)) \<and>
            ((\<exists>text. evaluate_case percent r = Inr (QUALIFIED, text)) \<longleftrightarrow> all_pass) \<and>
            (reasons = [] \<longleftrightarrow> all_pass) \<and>
            length reasons =
              (if mandatory_pass then 0 else 1) +
              (if delay_triggered \<and> \<not> delay_pass then 1 else 0) +
              (if core_pass then 0 else 1) + (if overlap_pass then 0 else 1))"
proof -
  define survey where "survey = row_get (col_survey_summary r) (Some [])"
  define report where "report = row_get (col_report_summary r) (Some [])"
  define category where
    "category = classify_insurance (row_get (col_insurance_type r) (Some []))"
  obtain mp mm where m: "check_mandatory survey = (mp, mm)"
    by (cases "check_mandatory survey")
  obtain dt dp dr where d:
    "check_delay (row_get (col_accident_time r) NaT) (row_get (col_report_time r) NaT) survey =
       (dt, dp, dr)"
    by (metis prod_cases3)
  obtain cp cc cm where c: "check_core_elements category survey = Inr (cp, cc, cm)"
    using check_core_elements_total [of category survey] by (metis prod_cases3)
  obtain elements where e: "core_elements_of category = Inr elements"
    using core_elements_of_total by blast
  obtain op rate where ov: "check_overlap report survey = Inr (op, rate)"
    using check_overlap_total [of report survey] by (metis surj_pair)
  have ne: "QUALIFIED \<noteq> UNQUALIFIED"
    by (simp add: QUALIFIED_def UNQUALIFIED_def)
  have cr: "case_reasons percent r =
      Inr ((if mp then [] else [mandatory_reason mm]) @
           (if dt \<and> \<not> dp then [dr] else []) @
           (if cp then [] else [core_reason (min 3 (length elements)) cc cm]) @
           (if op then [] else [overlap_reason percent rate]))"
    using m d c e ov
    by (simp add: case_reasons_def Let_def survey_def [symmetric] report_def [symmetric]
        category_def [symmetric])
  have ev: "evaluate_case percent r =
      Inr (if mp \<and> \<not> (dt \<and> \<not> dp) \<and> cp \<and> op then (QUALIFIED, [])
           else (UNQUALIFIED, join REASON_SEP
             ((if mp then [] else [mandatory_reason mm]) @
              (if dt \<and> \<not> dp then [dr] else []) @
              (if cp then [] else [core_reason (min 3 (length elements)) cc cm]) @
              (if op then [] else [overlap_reason percent rate]))))"
    by (auto simp: evaluate_case_def cr)
  have q: "(\<exists>text. evaluate_case percent r = Inr (QUALIFIED, text)) \<longleftrightarrow>
      (mp \<and> \<not> (dt \<and> \<not> dp) \<and> cp \<and> op)"
    using ne by (auto simp: ev)
  show ?thesis
    unfolding Let_def survey_def [symmetric] report_def [symmetric] category_def [symmetric]
      m d prod.case
    by (rule exI [of _ cp], rule exI [of _ cc], rule exI [of _ cm], rule exI [of _ op],
        rule exI [of _ rate], rule exI [of _ elements], intro conjI c e ov cr ev q) auto
qed

text \<open>
  A row on which all four rules fail: the survey summary is one character and equal to
  the report summary, the report is 10 days late. The list holds the four reasons in the
  fixed order. The rendering of the rate is here the text \<^verbatim>\<open>100.0%\<close>.
\<close>

lemma evaluate_case_example:
  "case_reasons (\<lambda>rate. [0x31, 0x30, 0x30, 0x2E, 0x30, 0x25])
     \<lparr>col_insurance_type = Some (Some [0x610F, 0x5916, 0x9669]),
      col_accident_time = Some (Time 0 False),
      col_report_time = Some (Time (10 * NS_PER_DAY) False),
      col_report_summary = Some (Some [0x7532]),
      col_survey_summary = Some (Some [0x7532])\<rparr> =
   Inr [mandatory_reason [item_survey_time, item_survey_place, item_survey_method,
                          item_accident_time, item_accident_place],
        DELAY_MSG @ [0x31, 0x30] @ DELAY_MSG_NOT_EXPLAINED,
        core_reason 3 0 [[0x4F24, 0x60C5], [0x90E8, 0x4F4D], [0x533B, 0x9662], [0x804C, 0x4E1A]],
        overlap_reason (\<lambda>rate. [0x31, 0x30, 0x30, 0x2E, 0x30, 0x25]) 1]"
proof -
  have cat: "classify_insurance (Some [0x610F, 0x5916, 0x9669]) = cat_accident"
    by (simp add: classify_insurance_def INSURANCE_CATEGORIES_def cat_accident_def sublist_code)
  have m: "check_mandatory (Some [0x7532]) =
      (False, [item_survey_time, item_survey_place, item_survey_method,
               item_accident_time, item_accident_place])"
    by (simp add: check_mandatory_def MANDATORY_PATTERNS_def re_search_def Let_def)
  have d: "check_delay (Time 0 False) (Time (10 * NS_PER_DAY) False) (Some [0x7532]) =
      (True, False, DELAY_MSG @ [0x31, 0x30] @ DELAY_MSG_NOT_EXPLAINED)"
    by (simp add: check_delay_defs DELAY_KEYWORDS_def str_int_def sublist_code)
  have els: "core_elements_of cat_accident =
     Inr [[0x4F24, 0x60C5], [0x90E8, 0x4F4D], [0x533B, 0x9662], [0x804C, 0x4E1A]]"
    by (simp add: core_elements_of_def dict_item_def dict_get_def CORE_ELEMENTS_def
        cat_accident_def cat_other_def)
  have c: "check_core_elements cat_accident (Some [0x7532]) =
     Inr (False, 0, [[0x4F24, 0x60C5], [0x90E8, 0x4F4D], [0x533B, 0x9662], [0x804C, 0x4E1A]])"
    by (simp add: check_core_elements_def els element_matches_def re_search_def sublist_code)
  have s: "strip [0x7532] = [0x7532]"
    by (simp add: strip_def isspace_def)
  have ov: "check_overlap (Some [0x7532]) (Some [0x7532]) = Inr (False, 1)"
    by (simp add: check_overlap_def s py_truediv_def)
  show ?thesis
    by (simp add: case_reasons_def row_get_def cat m d els c ov numeral_3_eq_3)
qed

subsection \<open>The relaxed element patterns\<close>

lemma core_elements_of_eq:
  "core_elements_of category =
     Inr (case map_of CORE_ELEMENTS category of
            Some own \<Rightarrow> own
          | None \<Rightarrow> [[0x635F, 0x5931, 0x7C7B, 0x578B], [0x540E, 0x7EED, 0x5904, 0x7406]])"
  by (simp add: core_elements_of_def core_elements_of_other dict_get_def)

lemma property_elements:
  "core_elements_of cat_property =
     Inr [[0x6807, 0x7684, 0x7C7B, 0x578B], [0x539F, 0x56E0, 0x7C7B, 0x578B],
          [0x7EF4, 0x4FEE, 0x65B9, 0x5F0F], [0x8D22, 0x52A1, 0x8D26, 0x518C], [0x6B8B, 0x503C]]"
  by (simp add: core_elements_of_eq CORE_ELEMENTS_def cat_property_def)


text \<open>
  C4, as stated, fails. The category of property insurance has five elements, three of
  them with a rewritten pair. The text below holds the three stems and nothing else. The
  specification's pattern lets the pair be absent and counts three matches, so the rule
  would pass; the pattern of the source requires the first character of the pair after the
  gap, counts no match, and the rule fails with all five elements missing.
\<close>

theorem core_elements_suffix_counterexample:
  "check_core_elements cat_property (Some [0x6807, 0x7684, 0x539F, 0x56E0, 0x7EF4, 0x4FEE]) =
     Inr (False, 0,
          [[0x6807, 0x7684, 0x7C7B, 0x578B], [0x539F, 0x56E0, 0x7C7B, 0x578B],
           [0x7EF4, 0x4FEE, 0x65B9, 0x5F0F], [0x8D22, 0x52A1, 0x8D26, 0x518C], [0x6B8B, 0x503C]]) \<and>
   spec_check_core_elements cat_property (Some [0x6807, 0x7684, 0x539F, 0x56E0, 0x7EF4, 0x4FEE]) =
     (True, 3, [[0x8D22, 0x52A1, 0x8D26, 0x518C], [0x6B8B, 0x503C]]) \<and>
   check_core_elements cat_property (Some [0x6807, 0x7684, 0x539F, 0x56E0, 0x7EF4, 0x4FEE]) \<noteq>
     Inr (spec_check_core_elements cat_property
            (Some [0x6807, 0x7684, 0x539F, 0x56E0, 0x7EF4, 0x4FEE]))"
proof -
  have code: "check_core_elements cat_property
      (Some [0x6807, 0x7684, 0x539F, 0x56E0, 0x7EF4, 0x4FEE]) =
     Inr (False, 0,
          [[0x6807, 0x7684, 0x7C7B, 0x578B], [0x539F, 0x56E0, 0x7C7B, 0x578B],
           [0x7EF4, 0x4FEE, 0x65B9, 0x5F0F], [0x8D22, 0x52A1, 0x8D26, 0x518C], [0x6B8B, 0x503C]])"
    by (simp add: check_core_elements_def property_elements element_matches_def re_search_def
        sublist_code)
  have spec: "spec_check_core_elements cat_property
      (Some [0x6807, 0x7684, 0x539F, 0x56E0, 0x7EF4, 0x4FEE]) =
     (True, 3, [[0x8D22, 0x52A1, 0x8D26, 0x518C], [0x6B8B, 0x503C]])"
    by (simp add: spec_check_core_elements_def CORE_ELEMENTS_def cat_property_def
        spec_element_matches_def re_search_def sublist_code suffix_pair_def)
  show ?thesis
    by (simp add: code spec)
qed


lemma plain_tl: "plain (a # s) \<Longrightarrow> plain s"
  by (cases s) simp_all

lemma suffix_pair_fst: "suffix_pair c1 c2 \<Longrightarrow> \<not> suffix_pair a c1"
  by (auto simp: suffix_pair_def)

lemma fuzzy_pattern_step:
  "\<not> suffix_pair a b \<Longrightarrow> fuzzy_pattern (a # b # s) = Seq (Lit [a]) (fuzzy_pattern (b # s))"
  by (auto simp: suffix_pair_def)

lemma fuzzy_pattern_pair:
  "suffix_pair c1 c2 \<Longrightarrow>
   fuzzy_pattern (c1 # c2 # s) = Seq (Dots 2) (Seq (Lit [c1]) (Seq (Opt (Lit [c2])) (fuzzy_pattern s)))"
  by (auto simp: suffix_pair_def)

lemma lang_fuzzy_plain: "plain e \<Longrightarrow> lang (fuzzy_pattern e) = {e}"
proof (induction e rule: plain.induct)
  case (1 a b s)
  from "1.prems" have np: "\<not> suffix_pair a b" and pl: "plain (b # s)"
    by simp_all
  have "lang (fuzzy_pattern (b # s)) = {b # s}"
    using "1.IH" pl by simp
  moreover have "fuzzy_pattern (a # b # s) = Seq (Lit [a]) (fuzzy_pattern (b # s))"
    using np by (rule fuzzy_pattern_step)
  ultimately show ?case by simp
qed simp_all

lemma lang_fuzzy_suffix:
  assumes "suffix_pair c1 c2"
  shows "plain stem \<Longrightarrow>
    lang (fuzzy_pattern (stem @ [c1, c2])) =
      {stem @ gap @ [c1] @ opt | gap opt.
         length gap \<le> 2 \<and> 0x0A \<notin> set gap \<and> (opt = [] \<or> opt = [c2])}"
proof (induction stem)
  case Nil
  have "fuzzy_pattern [c1, c2] =
      Seq (Dots 2) (Seq (Lit [c1]) (Seq (Opt (Lit [c2])) (Lit [])))"
    using fuzzy_pattern_pair [OF assms, of "[]"] by simp
  then show ?case by auto
next
  case (Cons a stem)
  have ih: "lang (fuzzy_pattern (stem @ [c1, c2])) =
      {stem @ gap @ [c1] @ opt | gap opt.
         length gap \<le> 2 \<and> 0x0A \<notin> set gap \<and> (opt = [] \<or> opt = [c2])}"
    using Cons plain_tl by blast
  obtain b rest where br: "stem @ [c1, c2] = b # rest"
    by (cases stem) simp_all
  have "\<not> suffix_pair a b"
  proof (cases stem)
    case Nil
    then show ?thesis using br assms suffix_pair_fst by simp
  next
    case (Cons x xs)
    then show ?thesis using br Cons.prems by simp
  qed
  then have "fuzzy_pattern ((a # stem) @ [c1, c2]) =
      Seq (Lit [a]) (fuzzy_pattern (stem @ [c1, c2]))"
    using fuzzy_pattern_step [of a b rest] br by simp
  then show ?case
    by (simp only: lang.simps ih) auto
qed

lemma element_matches_plain: "plain e \<Longrightarrow> element_matches e t = sublist e t"
  by (simp add: element_matches_def re_search_iff lang_fuzzy_plain)

lemma element_matches_suffix:
  assumes "plain stem" "suffix_pair c1 c2"
  shows "element_matches (stem @ [c1, c2]) t \<longleftrightarrow>
    (\<exists>gap. length gap \<le> 2 \<and> 0x0A \<notin> set gap \<and> sublist (stem @ gap @ [c1]) t)"
proof
  assume "element_matches (stem @ [c1, c2]) t"
  then consider "sublist (stem @ [c1, c2]) t"
    | w where "w \<in> lang (fuzzy_pattern (stem @ [c1, c2]))" "sublist w t"
    by (auto simp: element_matches_def re_search_iff)
  then show "\<exists>gap. length gap \<le> 2 \<and> 0x0A \<notin> set gap \<and> sublist (stem @ gap @ [c1]) t"
  proof cases
    case 1
    have "sublist (stem @ [] @ [c1]) (stem @ [c1, c2])"
      by (metis append.assoc append_Cons append_Nil sublist_append_rightI)
    then have "sublist (stem @ [] @ [c1]) t"
      using 1 sublist_order.order_trans by blast
    then show ?thesis
      by (intro exI [of _ "[]"]) simp
  next
    case 2
    then obtain gap opt where w: "w = stem @ gap @ [c1] @ opt"
      "length gap \<le> 2" "0x0A \<notin> set gap"
      using lang_fuzzy_suffix [OF assms(2) assms(1)] by auto
    have "sublist (stem @ gap @ [c1]) w"
      unfolding w by (metis append.assoc sublist_append_rightI)
    then have "sublist (stem @ gap @ [c1]) t"
      using 2(2) sublist_order.order_trans by blast
    then show ?thesis using w by blast
  qed
next
  assume "\<exists>gap. length gap \<le> 2 \<and> 0x0A \<notin> set gap \<and> sublist (stem @ gap @ [c1]) t"
  then obtain gap where g: "length gap \<le> 2" "0x0A \<notin> set gap" "sublist (stem @ gap @ [c1]) t"
    by blast
  have "stem @ gap @ [c1] @ [] \<in> lang (fuzzy_pattern (stem @ [c1, c2]))"
    unfolding lang_fuzzy_suffix [OF assms(2) assms(1)] using g by blast
  then show "element_matches (stem @ [c1, c2]) t"
    using g(3) by (auto simp: element_matches_def re_search_iff)
qed

lemma relaxed_elements:
  "filter (\<lambda>e. \<not> plain e) (remdups (concat (map snd CORE_ELEMENTS))) =
     [[0x7EF4, 0x4FEE] @ [0x65B9, 0x5F0F], [0x6807, 0x7684] @ [0x7C7B, 0x578B],
      [0x539F, 0x56E0] @ [0x7C7B, 0x578B], [0x635F, 0x5931] @ [0x7C7B, 0x578B]]"
  by (simp add: CORE_ELEMENTS_def suffix_pair_def)



text \<open>
  C4, amended. \<open>check_core_elements\<close> uses the category's own list, or the list of the
  category "other" when the category has none. On an absent summary it fails with count 0
  and the full list missing. On a text it passes exactly when at least \<open>min 3 n\<close> of the
  \<open>n\<close> elements match, and returns the number of matching elements and the others in
  declared order. An element without a rewritten pair matches exactly when it occurs in the
  text. An element made of such a stem and a pair matches exactly when the text contains
  the stem, then at most two characters other than the newline, then the first character
  of the pair; the second character of the pair is optional. The four elements of the
  table with a pair are of that form.
\<close>

theorem check_core_elements_relaxed:
  "(let elements =
          (case map_of CORE_ELEMENTS category of
             Some own \<Rightarrow> own
           | None \<Rightarrow> [[0x635F, 0x5931, 0x7C7B, 0x578B], [0x540E, 0x7EED, 0x5904, 0x7406]]);
        matched = filter (\<lambda>e. element_matches e t) elements
    in core_elements_of category = Inr elements \<and>
       check_core_elements category None = Inr (False, 0, elements) \<and>
       check_core_elements category (Some t) =
         Inr (min 3 (length elements) \<le> length matched, length matched,
              filter (\<lambda>e. \<not> element_matches e t) elements)) \<and>
   map_of CORE_ELEMENTS cat_other =
     Some [[0x635F, 0x5931, 0x7C7B, 0x578B], [0x540E, 0x7EED, 0x5904, 0x7406]] \<and>
   (plain e \<longrightarrow> element_matches e t = sublist e t) \<and>
   (plain stem \<and> suffix_pair c1 c2 \<longrightarrow>
      element_matches (stem @ [c1, c2]) t =
        (\<exists>gap. length gap \<le> 2 \<and> 0x0A \<notin> set gap \<and> sublist (stem @ gap @ [c1]) t)) \<and>
   filter (\<lambda>e. \<not> plain e) (remdups (concat (map snd CORE_ELEMENTS))) =
     [[0x7EF4, 0x4FEE] @ [0x65B9, 0x5F0F], [0x6807, 0x7684] @ [0x7C7B, 0x578B],
      [0x539F, 0x56E0] @ [0x7C7B, 0x578B], [0x635F, 0x5931] @ [0x7C7B, 0x578B]]"
proof -
  let ?elements = "case map_of CORE_ELEMENTS category of
             Some own \<Rightarrow> own
           | None \<Rightarrow> [[0x635F, 0x5931, 0x7C7B, 0x578B], [0x540E, 0x7EED, 0x5904, 0x7406]]"
  have els: "core_elements_of category = Inr ?elements"
    by (rule core_elements_of_eq)
  have absent: "check_core_elements category None = Inr (False, 0, ?elements)"
    by (simp add: check_core_elements_def els)
  have other: "map_of CORE_ELEMENTS cat_other =
     Some [[0x635F, 0x5931, 0x7C7B, 0x578B], [0x540E, 0x7EED, 0x5904, 0x7406]]"
    by (simp add: CORE_ELEMENTS_def cat_other_def)
  show ?thesis
    unfolding Let_def
    using els absent other check_core_elements_Some [OF els, of t] element_matches_plain [of e t]
      element_matches_suffix [of stem c1 c2 t] relaxed_elements
    by blast
qed


text \<open>
  The stem \<^verbatim>\<open>U+6807 U+7684\<close>, one character, then \<^verbatim>\<open>U+7C7B\<close>: the element with the pair
  matches; the element \<^verbatim>\<open>U+6B8B U+503C\<close> has no pair and matches as a substring only.
\<close>

theorem check_core_elements_relaxed_witness:
  "plain [0x6B8B, 0x503C] \<and> plain [0x6807, 0x7684] \<and> suffix_pair 0x7C7B 0x578B \<and>
   element_matches [0x6B8B, 0x503C] [0x6807, 0x7684, 0x5206, 0x7C7B] =
     sublist [0x6B8B, 0x503C :: nat] [0x6807, 0x7684, 0x5206, 0x7C7B] \<and>
   element_matches ([0x6807, 0x7684] @ [0x7C7B, 0x578B]) [0x6807, 0x7684, 0x5206, 0x7C7B]"
proof -
  have p1: "plain [0x6B8B, 0x503C]" by (simp add: suffix_pair_def)
  have p2: "plain [0x6807, 0x7684]" by (simp add: suffix_pair_def)
  have sp: "suffix_pair 0x7C7B 0x578B" by (simp add: suffix_pair_def)
  note t = check_core_elements_relaxed [of cat_property "[0x6807, 0x7684, 0x5206, 0x7C7B]"
      "[0x6B8B, 0x503C]" "[0x6807, 0x7684]" "0x7C7B" "0x578B"]
  have gap: "\<exists>gap :: str. length gap \<le> 2 \<and> 0x0A \<notin> set gap \<and>
      sublist ([0x6807, 0x7684] @ gap @ [0x7C7B]) [0x6807, 0x7684, 0x5206, 0x7C7B]"
    by (rule exI [of _ "[0x5206]"]) simp
  have a: "element_matches [0x6B8B, 0x503C] [0x6807, 0x7684, 0x5206, 0x7C7B] =
     sublist [0x6B8B, 0x503C :: nat] [0x6807, 0x7684, 0x5206, 0x7C7B]"
    by (rule t [THEN conjunct2, THEN conjunct2, THEN conjunct1, THEN mp, OF p1])
  have "element_matches ([0x6807, 0x7684] @ [0x7C7B, 0x578B]) [0x6807, 0x7684, 0x5206, 0x7C7B] =
     (\<exists>gap :: str. length gap \<le> 2 \<and> 0x0A \<notin> set gap \<and>
      sublist ([0x6807, 0x7684] @ gap @ [0x7C7B]) [0x6807, 0x7684, 0x5206, 0x7C7B])"
    by (rule t [THEN conjunct2, THEN conjunct2, THEN conjunct2, THEN conjunct1, THEN mp,
          OF conjI [OF p2 sp]])
  with gap
  have b: "element_matches ([0x6807, 0x7684] @ [0x7C7B, 0x578B]) [0x6807, 0x7684, 0x5206, 0x7C7B]"
    by (rule iffD2 [OF _ _, rotated])
  from p1 p2 sp a b show ?thesis by (intro conjI)
qed

subsection \<open>The institution summary\<close>

lemma list_index_Inr:
  "x \<in> set xs \<Longrightarrow> \<exists>n. list_index xs x = Inr n \<and> n < length xs \<and> xs ! n = x"
  by (induction xs) auto

lemma list_index_Inl: "x \<notin> set xs \<Longrightarrow> list_index xs x = Inl ValueError"
  by (induction xs) auto

lemma sort_key_institution_listed:
  "name \<in> set INSTITUTION_ORDER \<Longrightarrow>
     sort_key_institution name < length INSTITUTION_ORDER \<and>
     INSTITUTION_ORDER ! sort_key_institution name = name"
  using list_index_Inr [of name INSTITUTION_ORDER] by (auto simp: sort_key_institution_def)

lemma sort_key_institution_unlisted:
  "name \<notin> set INSTITUTION_ORDER \<Longrightarrow> sort_key_institution name = length INSTITUTION_ORDER"
  by (simp add: sort_key_institution_def list_index_Inl)

lemma institutions_groupby:
  "map institution (groupby_institution df) = sort (remdups (map fst df))"
  by (simp add: groupby_institution_def comp_def)

lemma groupby_institution_mset:
  assumes "mset df' = mset df"
  shows "groupby_institution df' = groupby_institution df"
proof -
  have "set (map fst df') = set (map fst df)"
    using assms by (metis mset_eq_setD mset_map)
  then have keys: "sort (remdups (map fst df')) = sort (remdups (map fst df))"
    by (metis sorted_list_of_set_sort_remdups)
  have len: "length (filter P df') = length (filter P df)" for P
    using assms by (metis mset_filter size_mset)
  show ?thesis
    unfolding groupby_institution_def keys by (simp add: len)
qed

lemma sum_list_indicator:
  "distinct ks \<Longrightarrow>
     sum_list (map (\<lambda>k. if x = k \<and> b then 1 else 0) ks) = (if x \<in> set ks \<and> b then 1 else (0::nat))"
  by (induction ks) auto

lemma sum_group_counts:
  assumes "distinct ks" "fst ` set df \<subseteq> set ks"
  shows "sum_list (map (\<lambda>k. length (filter (\<lambda>c. fst c = k \<and> P c) df)) ks) =
     length (filter P df)"
  using assms(2)
proof (induction df)
  case Nil
  then show ?case by simp
next
  case (Cons c df)
  have "sum_list (map (\<lambda>k. length (filter (\<lambda>c. fst c = k \<and> P c) (c # df))) ks) =
      sum_list (map (\<lambda>k. (if fst c = k \<and> P c then 1 else 0) +
                          length (filter (\<lambda>c. fst c = k \<and> P c) df)) ks)"
    by (intro arg_cong [where f = sum_list] map_cong) auto
  also have "\<dots> = sum_list (map (\<lambda>k. if fst c = k \<and> P c then 1 else 0) ks) +
      sum_list (map (\<lambda>k. length (filter (\<lambda>c. fst c = k \<and> P c) df)) ks)"
    by (rule sum_list_addf)
  also have "\<dots> = (if P c then 1 else 0) + length (filter P df)"
    using Cons sum_list_indicator [OF assms(1), of "fst c" "P c"] by auto
  finally show ?case by simp
qed

lemma groupby_totals:
  "sum_list (map total_cases (groupby_institution df)) = length df"
  "sum_list (map qualified_cases (groupby_institution df)) =
     length (filter (\<lambda>c. snd c = QUALIFIED) df)"
  using sum_group_counts [of "sort (remdups (map fst df))" df "\<lambda>c. True"]
    sum_group_counts [of "sort (remdups (map fst df))" df "\<lambda>c. snd c = QUALIFIED"]
  by (simp_all add: groupby_institution_def comp_def)

lemma sum_list_sort_key:
  "sum_list (map f (sort_key g xs)) = (sum_list (map f xs) :: nat)"
proof -
  have "mset (map f (sort_key g xs)) = mset (map f xs)" by simp
  then show ?thesis by (metis sum_mset_sum_list)
qed


lemma sorted_key_split:
  "sorted (map k xs) \<Longrightarrow>
     xs = filter (\<lambda>x. k x < (n::nat)) xs @ filter (\<lambda>x. \<not> k x < n) xs"
proof (induction xs)
  case Nil
  then show ?case by simp
next
  case (Cons x xs)
  show ?case
  proof (cases "k x < n")
    case True
    then show ?thesis using Cons by simp
  next
    case False
    then have "\<forall>y\<in>set xs. \<not> k y < n"
      using Cons.prems by fastforce
    then have "filter (\<lambda>x. k x < n) xs = []" "filter (\<lambda>x. \<not> k x < n) xs = xs"
      by (simp_all add: filter_empty_conv filter_id_conv)
    then show ?thesis using False by simp
  qed
qed

lemma sort_key_institution_less:
  "sort_key_institution name < length INSTITUTION_ORDER \<longleftrightarrow> name \<in> set INSTITUTION_ORDER"
  using sort_key_institution_listed [of name] sort_key_institution_unlisted [of name]
  by (cases "name \<in> set INSTITUTION_ORDER") simp_all


text \<open>
  C5, amended. The summary is the list of the groups followed by one total row, which is
  last. There is one group for each institution of the batch, with its number of cases
  and of qualified cases. The groups are in ascending order of the key, which is the index
  in \<^verbatim>\<open>INSTITUTION_ORDER\<close> for a listed institution and the length of that list for any
  other; so the listed institutions come first, by index, and every unlisted one after
  them. The total row carries the sums of the two counts over the groups, which are the
  number of cases and of qualified cases of the batch. The summary is the same for every
  reordering of the batch: the place of an unlisted institution among the unlisted ones
  does not depend on where it is met in the batch.
\<close>

theorem create_summary_sheet_order:
  assumes "mset df' = mset df"
  shows "\<exists>groups.
     create_summary_sheet df =
       groups @ [\<lparr>institution = TOTAL_LABEL, total_cases = length df,
                   qualified_cases = length (filter (\<lambda>c. snd c = QUALIFIED) df)\<rparr>] \<and>
     distinct (map institution groups) \<and>
     set (map institution groups) = fst ` set df \<and>
     list_all (\<lambda>g. total_cases g = length (filter (\<lambda>c. fst c = institution g) df) \<and>
                    qualified_cases g =
                      length (filter (\<lambda>c. fst c = institution g \<and> snd c = QUALIFIED) df))
       groups \<and>
     sorted (map (\<lambda>g. sort_key_institution (institution g)) groups) \<and>
     (if name \<in> set INSTITUTION_ORDER
      then sort_key_institution name < length INSTITUTION_ORDER \<and>
           INSTITUTION_ORDER ! sort_key_institution name = name
      else sort_key_institution name = length INSTITUTION_ORDER) \<and>
     map institution groups =
       filter (\<lambda>n. n \<in> set INSTITUTION_ORDER) (map institution groups) @
       filter unlisted (map institution groups) \<and>
     sum_list (map total_cases groups) = length df \<and>
     sum_list (map qualified_cases groups) = length (filter (\<lambda>c. snd c = QUALIFIED) df) \<and>
     create_summary_sheet df' = create_summary_sheet df"
proof -
  let ?key = "\<lambda>g. sort_key_institution (institution g)"
  define groups where "groups = sort_key ?key (groupby_institution df)"
  have tot: "sum_list (map total_cases groups) = length df"
    and qual: "sum_list (map qualified_cases groups) =
      length (filter (\<lambda>c. snd c = QUALIFIED) df)"
    by (simp_all add: groups_def sum_list_sort_key groupby_totals)
  have sheet: "create_summary_sheet df =
       groups @ [\<lparr>institution = TOTAL_LABEL, total_cases = length df,
                   qualified_cases = length (filter (\<lambda>c. snd c = QUALIFIED) df)\<rparr>]"
    using tot qual by (simp add: create_summary_sheet_def Let_def groups_def)
  have names: "mset (map institution groups) = mset (sort (remdups (map fst df)))"
    by (simp add: groups_def institutions_groupby [symmetric])
  have dist: "distinct (map institution groups)"
    using names by (metis distinct_remdups distinct_sort mset_eq_imp_distinct_iff)
  have sets: "set (map institution groups) = fst ` set df"
    using names by (metis mset_eq_setD set_map set_remdups set_sort)
  have counts: "list_all (\<lambda>g. total_cases g = length (filter (\<lambda>c. fst c = institution g) df) \<and>
                    qualified_cases g =
                      length (filter (\<lambda>c. fst c = institution g \<and> snd c = QUALIFIED) df))
       groups"
    by (auto simp: list_all_iff groups_def groupby_institution_def)
  have srt: "sorted (map ?key groups)"
    by (simp add: groups_def)
  have key: "if name \<in> set INSTITUTION_ORDER
      then sort_key_institution name < length INSTITUTION_ORDER \<and>
           INSTITUTION_ORDER ! sort_key_institution name = name
      else sort_key_institution name = length INSTITUTION_ORDER"
    using sort_key_institution_listed [of name] sort_key_institution_unlisted [of name]
    by simp
  have "sorted (map sort_key_institution (map institution groups))"
    using srt by (simp add: comp_def)
  moreover have "unlisted = (\<lambda>n. n \<notin> set INSTITUTION_ORDER)"
    by (auto simp: unlisted_def)
  ultimately have split: "map institution groups =
       filter (\<lambda>n. n \<in> set INSTITUTION_ORDER) (map institution groups) @
       filter unlisted (map institution groups)"
    using sorted_key_split [of sort_key_institution "map institution groups"
        "length INSTITUTION_ORDER"]
    by (simp only: sort_key_institution_less)
  have perm: "create_summary_sheet df' = create_summary_sheet df"
    by (simp add: create_summary_sheet_def groupby_institution_mset [OF assms])
  show ?thesis
    using sheet dist sets counts srt key split tot qual perm by blast
qed



text \<open>
  A batch with an institution of index 2, an unlisted one and an institution of index 0,
  and a reordering of it: the summary is index 0, index 2, unlisted, total.
\<close>

theorem create_summary_sheet_order_witness:
  "mset [([0x5408, 0x80A5 :: nat], QUALIFIED), ([0x868C, 0x57E0], QUALIFIED),
         ([0x5317, 0x4EAC], UNQUALIFIED)] =
   mset [([0x868C, 0x57E0], QUALIFIED), ([0x5317, 0x4EAC], UNQUALIFIED),
         ([0x5408, 0x80A5], QUALIFIED)] \<and>
   create_summary_sheet
     [([0x5408, 0x80A5], QUALIFIED), ([0x868C, 0x57E0], QUALIFIED),
      ([0x5317, 0x4EAC], UNQUALIFIED)] =
   create_summary_sheet
     [([0x868C, 0x57E0], QUALIFIED), ([0x5317, 0x4EAC], UNQUALIFIED),
      ([0x5408, 0x80A5], QUALIFIED)] \<and>
   create_summary_sheet
     [([0x868C, 0x57E0], QUALIFIED), ([0x5317, 0x4EAC], UNQUALIFIED),
      ([0x5408, 0x80A5], QUALIFIED)] =
     [\<lparr>institution = [0x5408, 0x80A5], total_cases = 1, qualified_cases = 1\<rparr>,
      \<lparr>institution = [0x868C, 0x57E0], total_cases = 1, qualified_cases = 1\<rparr>,
      \<lparr>institution = [0x5317, 0x4EAC], total_cases = 1, qualified_cases = 0\<rparr>,
      \<lparr>institution = TOTAL_LABEL, total_cases = 3, qualified_cases = 2\<rparr>]"
proof -
  let ?df = "[([0x868C, 0x57E0], QUALIFIED), ([0x5317, 0x4EAC], UNQUALIFIED),
      ([0x5408, 0x80A5 :: nat], QUALIFIED)]"
  let ?df' = "[([0x5408, 0x80A5], QUALIFIED), ([0x868C, 0x57E0], QUALIFIED),
      ([0x5317, 0x4EAC :: nat], UNQUALIFIED)]"
  have m: "mset ?df' = mset ?df"
    by simp
  have p: "create_summary_sheet ?df' = create_summary_sheet ?df"
    using create_summary_sheet_order [OF m] by blast
  have k: "sort_key_institution [0x868C, 0x57E0] = 2" "sort_key_institution [0x5317, 0x4EAC] = 16"
    "sort_key_institution [0x5408, 0x80A5] = 0"
    by (simp_all add: sort_key_institution_def INSTITUTION_ORDER_def)
  have v: "create_summary_sheet ?df =
     [\<lparr>institution = [0x5408, 0x80A5], total_cases = 1, qualified_cases = 1\<rparr>,
      \<lparr>institution = [0x868C, 0x57E0], total_cases = 1, qualified_cases = 1\<rparr>,
      \<lparr>institution = [0x5317, 0x4EAC], total_cases = 1, qualified_cases = 0\<rparr>,
      \<lparr>institution = TOTAL_LABEL, total_cases = 3, qualified_cases = 2\<rparr>]"
    by (simp add: create_summary_sheet_def groupby_institution_def k QUALIFIED_def
        UNQUALIFIED_def)
  from m p v show ?thesis by (intro conjI)
qed


text \<open>
  C5, as stated, fails in what it says of the unlisted institutions. The batch below
  meets \<^verbatim>\<open>U+5317 U+4EAC\<close> first and \<^verbatim>\<open>U+4E0A U+6D77\<close> second, both unlisted. \<^verbatim>\<open>groupby\<close>
  puts the groups in the order of their names, and the summary lists \<^verbatim>\<open>U+4E0A U+6D77\<close>
  first. The batch in the opposite order has the same summary (this holds however the
  sort places equal keys), so the order of first encounter is not followed.
\<close>

theorem first_encounter_counterexample:
  "map institution
     (create_summary_sheet [([0x5317, 0x4EAC], QUALIFIED), ([0x4E0A, 0x6D77], UNQUALIFIED)]) =
     [[0x4E0A, 0x6D77], [0x5317, 0x4EAC], TOTAL_LABEL] \<and>
   filter unlisted
     (first_encounter (map fst [([0x5317, 0x4EAC], QUALIFIED), ([0x4E0A, 0x6D77], UNQUALIFIED)])) =
     [[0x5317, 0x4EAC], [0x4E0A, 0x6D77]] \<and>
   create_summary_sheet [([0x4E0A, 0x6D77], UNQUALIFIED), ([0x5317, 0x4EAC], QUALIFIED)] =
   create_summary_sheet [([0x5317, 0x4EAC], QUALIFIED), ([0x4E0A, 0x6D77], UNQUALIFIED)] \<and>
   filter unlisted
     (map institution (butlast
        (create_summary_sheet
           [([0x5317, 0x4EAC], QUALIFIED), ([0x4E0A, 0x6D77], UNQUALIFIED)]))) \<noteq>
   filter unlisted
     (first_encounter (map fst [([0x5317, 0x4EAC], QUALIFIED), ([0x4E0A, 0x6D77], UNQUALIFIED)]))"
proof -
  have k: "sort_key_institution [0x4E0A, 0x6D77] = 16" "sort_key_institution [0x5317, 0x4EAC] = 16"
    by (simp_all add: sort_key_institution_def INSTITUTION_ORDER_def)
  have u: "unlisted [0x4E0A, 0x6D77]" "unlisted [0x5317, 0x4EAC]"
    by (simp_all add: unlisted_def INSTITUTION_ORDER_def)
  have a: "create_summary_sheet [([0x5317, 0x4EAC], QUALIFIED), ([0x4E0A, 0x6D77], UNQUALIFIED)] =
     [\<lparr>institution = [0x4E0A, 0x6D77], total_cases = 1, qualified_cases = 0\<rparr>,
      \<lparr>institution = [0x5317, 0x4EAC], total_cases = 1, qualified_cases = 1\<rparr>,
      \<lparr>institution = TOTAL_LABEL, total_cases = 2, qualified_cases = 1\<rparr>]"
    by (simp add: create_summary_sheet_def groupby_institution_def k QUALIFIED_def
        UNQUALIFIED_def)
  have b: "create_summary_sheet [([0x4E0A, 0x6D77], UNQUALIFIED), ([0x5317, 0x4EAC], QUALIFIED)] =
     [\<lparr>institution = [0x4E0A, 0x6D77], total_cases = 1, qualified_cases = 0\<rparr>,
      \<lparr>institution = [0x5317, 0x4EAC], total_cases = 1, qualified_cases = 1\<rparr>,
      \<lparr>institution = TOTAL_LABEL, total_cases = 2, qualified_cases = 1\<rparr>]"
    by (simp add: create_summary_sheet_def groupby_institution_def k QUALIFIED_def
        UNQUALIFIED_def)
  show ?thesis
    by (simp add: a b u first_encounter_def)
qed

text \<open>
  The same holds of the summary whatever the method of sorting: the model of
  \<open>create_summary_sheet\<close> is the instance with the insertion sort.
\<close>

lemma create_summary_sheet_sorted_by:
  "create_summary_sheet df = summary_sheet_sorted_by sort_key df" "sorts_by_key sort_key"
  by (simp_all add: create_summary_sheet_def summary_sheet_sorted_by_def sorts_by_key_def)

lemma summary_sheet_any_sort:
  assumes "sorts_by_key sorter" and "mset df' = mset df"
  shows "\<exists>groups.
     summary_sheet_sorted_by sorter df =
       groups @ [\<lparr>institution = TOTAL_LABEL, total_cases = length df,
                   qualified_cases = length (filter (\<lambda>c. snd c = QUALIFIED) df)\<rparr>] \<and>
     distinct (map institution groups) \<and>
     set (map institution groups) = fst ` set df \<and>
     list_all (\<lambda>g. total_cases g = length (filter (\<lambda>c. fst c = institution g) df) \<and>
                    qualified_cases g =
                      length (filter (\<lambda>c. fst c = institution g \<and> snd c = QUALIFIED) df))
       groups \<and>
     sorted (map (\<lambda>g. sort_key_institution (institution g)) groups) \<and>
     map institution groups =
       filter (\<lambda>n. n \<in> set INSTITUTION_ORDER) (map institution groups) @
       filter unlisted (map institution groups) \<and>
     sum_list (map total_cases groups) = length df \<and>
     sum_list (map qualified_cases groups) = length (filter (\<lambda>c. snd c = QUALIFIED) df) \<and>
     summary_sheet_sorted_by sorter df' = summary_sheet_sorted_by sorter df"
proof -
  let ?key = "\<lambda>g. sort_key_institution (institution g)"
  define groups where "groups = sorter ?key (groupby_institution df)"
  have ms: "mset groups = mset (groupby_institution df)"
    and srt: "sorted (map ?key groups)"
    using assms(1) by (simp_all add: groups_def sorts_by_key_def)
  have sum_eq: "sum_list (map f groups) = sum_list (map f (groupby_institution df))"
    for f :: "summary_row \<Rightarrow> nat"
  proof -
    have "mset (map f groups) = mset (map f (groupby_institution df))"
      using ms by simp
    then show ?thesis by (metis sum_mset_sum_list)
  qed
  have tot: "sum_list (map total_cases groups) = length df"
    and qual: "sum_list (map qualified_cases groups) =
      length (filter (\<lambda>c. snd c = QUALIFIED) df)"
    by (simp_all add: sum_eq groupby_totals)
  have sheet: "summary_sheet_sorted_by sorter df =
       groups @ [\<lparr>institution = TOTAL_LABEL, total_cases = length df,
                   qualified_cases = length (filter (\<lambda>c. snd c = QUALIFIED) df)\<rparr>]"
    using tot qual by (simp add: summary_sheet_sorted_by_def Let_def groups_def)
  have names: "mset (map institution groups) = mset (sort (remdups (map fst df)))"
    using ms by (simp add: institutions_groupby [symmetric])
  have dist: "distinct (map institution groups)"
    using names by (metis distinct_remdups distinct_sort mset_eq_imp_distinct_iff)
  have sets: "set (map institution groups) = fst ` set df"
    using names by (metis mset_eq_setD set_map set_remdups set_sort)
  have "set groups = set (groupby_institution df)"
    using ms by (rule mset_eq_setD)
  then have counts: "list_all (\<lambda>g. total_cases g = length (filter (\<lambda>c. fst c = institution g) df) \<and>
                    qualified_cases g =
                      length (filter (\<lambda>c. fst c = institution g \<and> snd c = QUALIFIED) df))
       groups"
    by (auto simp: list_all_iff groupby_institution_def)
  have "sorted (map sort_key_institution (map institution groups))"
    using srt by (simp add: comp_def)
  moreover have "unlisted = (\<lambda>n. n \<notin> set INSTITUTION_ORDER)"
    by (auto simp: unlisted_def)
  ultimately have split: "map institution groups =
       filter (\<lambda>n. n \<in> set INSTITUTION_ORDER) (map institution groups) @
       filter unlisted (map institution groups)"
    using sorted_key_split [of sort_key_institution "map institution groups"
        "length INSTITUTION_ORDER"]
    by (simp only: sort_key_institution_less)
  have perm: "summary_sheet_sorted_by sorter df' = summary_sheet_sorted_by sorter df"
    by (simp add: summary_sheet_sorted_by_def groupby_institution_mset [OF assms(2)])
  show ?thesis
    using sheet dist sets counts srt split tot qual perm by blast
qed

subsection \<open>The rate column\<close>

text \<open>
  The exponent that \<open>ilog2\<close> computes is the one that brackets its argument, so a float
  is evaluated from any bracket one exhibits; rounding a quotient of two integers is
  integer arithmetic.
\<close>

lemma of_int_bitlen_bounds:
  assumes "0 < a"
  shows "(2::rat) powi (bitlen a - 1) \<le> of_int a" "(of_int a :: rat) < 2 powi bitlen a"
proof -
  have b: "2 ^ nat (bitlen a - 1) \<le> a" "a < 2 ^ nat (bitlen a)"
    using bitlen_bounds [OF assms] by auto
  have pos: "0 < bitlen a"
    using b(2) assms by (cases "0 < bitlen a") auto
  have "(2::rat) powi (bitlen a - 1) = of_int (2 ^ nat (bitlen a - 1))"
    using pos by (simp add: power_int_def)
  also have "\<dots> \<le> of_int a"
    using b(1) by (simp only: of_int_le_iff)
  finally show "(2::rat) powi (bitlen a - 1) \<le> of_int a" .
  have "(of_int a :: rat) < of_int (2 ^ nat (bitlen a))"
    using b(2) by (simp only: of_int_less_iff)
  also have "\<dots> = 2 powi bitlen a"
    using pos by (simp add: power_int_def)
  finally show "(of_int a :: rat) < 2 powi bitlen a" .
qed

lemma ilog2_bounds:
  assumes "0 < x"
  shows "2 powi ilog2 x \<le> x \<and> x < 2 powi (ilog2 x + 1)"
proof -
  obtain a b where ab: "quotient_of x = (a, b)"
    by (cases "quotient_of x")
  have b: "0 < b" using ab quotient_of_denom_pos by blast
  have x: "x = of_int a / of_int b" using ab quotient_of_div by blast
  have a: "0 < a"
    using assms b x by (simp add: zero_less_divide_iff)
  define e where "e = bitlen a - bitlen b"
  note A = of_int_bitlen_bounds [OF a] and B = of_int_bitlen_bounds [OF b]
  have bp: "(0::rat) < of_int b" using b by simp
  have up: "x < 2 powi (e + 1)"
  proof -
    have "x * of_int b < (2::rat) powi bitlen a"
      using A(2) bp x by simp
    also have "\<dots> = 2 powi (e + 1) * 2 powi (bitlen b - 1)"
      by (simp add: e_def power_int_add [symmetric])
    also have "\<dots> \<le> 2 powi (e + 1) * of_int b"
      using B(1) by (simp add: mult_left_mono)
    finally show ?thesis using bp by simp
  qed
  have low: "2 powi (e - 1) < x"
  proof -
    have "(2::rat) powi (e - 1) * of_int b < 2 powi (e - 1) * 2 powi bitlen b"
      using B(2) by (simp add: mult_strict_left_mono)
    also have "\<dots> = 2 powi (bitlen a - 1)"
      by (simp add: e_def power_int_add [symmetric])
    also have "\<dots> \<le> x * of_int b"
      using A(1) bp x by simp
    finally show ?thesis using bp by simp
  qed
  have il: "ilog2 x = (if 2 powi e \<le> x then e else e - 1)"
    by (simp add: ilog2_def ab e_def Let_def)
  show ?thesis
  proof (cases "2 powi e \<le> x")
    case True
    then show ?thesis using il up by simp
  next
    case False
    then show ?thesis using il low by simp
  qed
qed

lemma ilog2_eqI:
  assumes "2 powi e \<le> x" "x < 2 powi (e + 1)"
  shows "ilog2 x = e"
proof -
  have "(0::rat) < 2 powi e" by simp
  then have pos: "0 < x" using assms(1) by linarith
  note b = ilog2_bounds [OF pos]
  have "\<not> ilog2 x < e"
  proof
    assume "ilog2 x < e"
    then have "(2::rat) powi (ilog2 x + 1) \<le> 2 powi e"
      by (intro power_int_increasing) simp_all
    then show False using b assms by linarith
  qed
  moreover have "\<not> e < ilog2 x"
  proof
    assume "e < ilog2 x"
    then have "(2::rat) powi (e + 1) \<le> 2 powi ilog2 x"
      by (intro power_int_increasing) simp_all
    then show False using b assms by linarith
  qed
  ultimately show ?thesis by linarith
qed

lemma binary64_eqI:
  assumes "2 powi e \<le> x" "x < 2 powi (e + 1)"
  shows "binary64 x = of_int (round_half_even (x / 2 powi (e - 52))) * 2 powi (e - 52)"
proof -
  have "(0::rat) < 2 powi e" by simp
  then have pos: "0 < x" using assms(1) by linarith
  then have "ilog2 \<bar>x\<bar> = e"
    using ilog2_eqI [OF assms] by simp
  then show ?thesis using pos by (simp add: binary64_def Let_def)
qed

lemma round_half_even_of_int_divide:
  assumes "0 < b"
  shows "round_half_even (of_int a / of_int b) =
     (let n = a div b; m = a mod b
      in if 2 * m < b then n else if b < 2 * m then n + 1 else if even n then n else n + 1)"
proof -
  have bp: "(0::rat) < of_int b" using assms by simp
  have fl: "\<lfloor>(of_int a :: rat) / of_int b\<rfloor> = a div b"
    by (rule floor_divide_of_int_eq)
  have "(of_int a :: rat) = of_int (a div b) * of_int b + of_int (a mod b)"
    by (metis div_mult_mod_eq of_int_add of_int_mult)
  then have r: "(of_int a :: rat) / of_int b - of_int (a div b) = of_int (a mod b) / of_int b"
    using bp by (simp add: field_simps)
  have lt: "(of_int (a mod b) :: rat) / of_int b < 1 / 2 \<longleftrightarrow> 2 * (a mod b) < b"
  proof -
    have "(of_int (a mod b) :: rat) / of_int b < 1 / 2 \<longleftrightarrow>
        (of_int (2 * (a mod b)) :: rat) < of_int b"
      using bp by (simp add: field_simps)
    then show ?thesis by (simp only: of_int_less_iff)
  qed
  have gt: "1 / 2 < (of_int (a mod b) :: rat) / of_int b \<longleftrightarrow> b < 2 * (a mod b)"
  proof -
    have "1 / 2 < (of_int (a mod b) :: rat) / of_int b \<longleftrightarrow>
        (of_int b :: rat) < of_int (2 * (a mod b))"
      using bp by (simp add: field_simps)
    then show ?thesis by (simp only: of_int_less_iff)
  qed
  show ?thesis
    unfolding round_half_even_def Let_def fl r lt gt ..
qed

lemma round_half_even_numeral_divide [simp]:
  "round_half_even (numeral a / numeral b) =
     (let n = (numeral a :: int) div numeral b; m = (numeral a :: int) mod numeral b
      in if 2 * m < numeral b then n else if numeral b < 2 * m then n + 1
         else if even n then n else n + 1)"
  using round_half_even_of_int_divide [of "numeral b" "numeral a"] by simp

lemma round_half_even_numeral [simp]: "round_half_even (numeral a) = numeral a"
  by (simp add: round_half_even_def)


text \<open>The rate of 23 qualified cases out of 80, step by step.\<close>

lemma binary64_23: "binary64 23 = 23"
  by (subst binary64_eqI [where e = 4]) (simp_all add: Let_def)

lemma binary64_80: "binary64 80 = 80"
  by (subst binary64_eqI [where e = 6]) (simp_all add: Let_def)

lemma rate_percent_23_80: "rate_percent 23 80 = 8092405580431359 / 281474976710656"
proof -
  have c: "binary64 (23 / 80) = 2589569785738035 / 9007199254740992"
    by (subst binary64_eqI [where e = "-2"]) (simp_all add: Let_def)
  show ?thesis
    unfolding rate_percent_def of_nat_numeral binary64_23 binary64_80 c
    by (subst binary64_eqI [where e = 4]) (simp_all add: Let_def)
qed

lemma tenths_text_287: "tenths_text 287 = [0x32, 0x38, 0x2E, 0x37]"
  by (simp add: tenths_text_def str_int_def)

lemma tenths_text_288: "tenths_text 288 = [0x32, 0x38, 0x2E, 0x38]"
  by (simp add: tenths_text_def str_int_def)

lemma rate_texts_23_80:
  "group_rate_text 23 80 = [0x32, 0x38, 0x2E, 0x37, 0x25]"
  "total_rate_text 23 80 = [0x32, 0x38, 0x2E, 0x37, 0x25]"
proof -
  have g: "binary64 (8092405580431359 / 281474976710656 * 10) =
      5057753487769599 / 17592186044416"
    by (subst binary64_eqI [where e = 8]) (simp_all add: Let_def)
  have rg: "round_half_even (5057753487769599 / 17592186044416) = 287"
    by (simp add: Let_def)
  have rt: "round_half_even (8092405580431359 / 281474976710656 * 10) = 287"
    by (simp add: Let_def)
  show "group_rate_text 23 80 = [0x32, 0x38, 0x2E, 0x37, 0x25]"
    unfolding group_rate_text_def rate_percent_23_80 g rg tenths_text_287 by simp
  show "total_rate_text 23 80 = [0x32, 0x38, 0x2E, 0x37, 0x25]"
    unfolding total_rate_text_def rate_percent_23_80 rt tenths_text_287 by simp
qed

lemma remdups_replicate_Suc: "remdups (replicate (Suc n) x) = [x]"
  by (induction n) simp_all

lemma summary_23_of_80:
  "create_summary_sheet
     (replicate 23 ([0x5408, 0x80A5], QUALIFIED) @ replicate 57 ([0x5408, 0x80A5], UNQUALIFIED)) =
     [\<lparr>institution = [0x5408, 0x80A5], total_cases = 80, qualified_cases = 23\<rparr>,
      \<lparr>institution = TOTAL_LABEL, total_cases = 80, qualified_cases = 23\<rparr>]"
proof -
  have ne: "QUALIFIED \<noteq> UNQUALIFIED"
    by (simp add: QUALIFIED_def UNQUALIFIED_def)
  have "map fst
      (replicate 23 ([0x5408, 0x80A5 :: nat], QUALIFIED) @
       replicate 57 ([0x5408, 0x80A5], UNQUALIFIED)) = replicate 80 [0x5408, 0x80A5]"
    by (simp add: replicate_add [symmetric])
  moreover have "remdups (replicate 80 [0x5408, 0x80A5 :: nat]) = [[0x5408, 0x80A5]]"
    using remdups_replicate_Suc [of 79 "[0x5408, 0x80A5 :: nat]"] by simp
  ultimately have keys: "remdups (map fst
      (replicate 23 ([0x5408, 0x80A5 :: nat], QUALIFIED) @
       replicate 57 ([0x5408, 0x80A5], UNQUALIFIED))) = [[0x5408, 0x80A5]]"
    by simp
  have g: "groupby_institution
      (replicate 23 ([0x5408, 0x80A5], QUALIFIED) @ replicate 57 ([0x5408, 0x80A5], UNQUALIFIED)) =
     [\<lparr>institution = [0x5408, 0x80A5], total_cases = 80, qualified_cases = 23\<rparr>]"
    unfolding groupby_institution_def keys using ne by simp
  show ?thesis
    by (simp add: create_summary_sheet_def g)
qed

text \<open>
  C8: the code breaks the claim. The claim is that the rate is
  \<open>qualifiedCases / totalCases * 100\<close> rounded to one decimal. The code rounds to one
  decimal (\<^verbatim>\<open>.round(1)\<close> at line 245, \<^verbatim>\<open>.1f\<close> at line 260), but it rounds the floating-point
  product, which can lie on the other side of a tie than the exact value. For a batch of
  80 cases of one institution, 23 of them qualified, the exact rate is 28.75, which
  rounds to 28.8 (to the even digit as well as upwards); the float product is
  28.749999999999996, and both the row of the institution and the total row show
  \<^verbatim>\<open>28.7%\<close>.
\<close>

theorem rate_column_23_of_80:
  "rate_column
     (replicate 23 ([0x5408, 0x80A5], QUALIFIED) @ replicate 57 ([0x5408, 0x80A5], UNQUALIFIED)) =
     [[0x32, 0x38, 0x2E, 0x37, 0x25], [0x32, 0x38, 0x2E, 0x37, 0x25]] \<and>
   (23 / 80 * 100 :: rat) = 2875 / 100 \<and>
   tenths_text (round_half_even (23 / 80 * 100 * 10)) = [0x32, 0x38, 0x2E, 0x38] \<and>
   tenths_text \<lfloor>(23 / 80 * 100 * 10 :: rat) + 1 / 2\<rfloor> = [0x32, 0x38, 0x2E, 0x38]"
proof -
  have col: "rate_column
     (replicate 23 ([0x5408, 0x80A5], QUALIFIED) @ replicate 57 ([0x5408, 0x80A5], UNQUALIFIED)) =
     [[0x32, 0x38, 0x2E, 0x37, 0x25], [0x32, 0x38, 0x2E, 0x37, 0x25]]"
    by (simp add: rate_column_def summary_23_of_80 rate_texts_23_80)
  have ex: "(23 / 80 * 100 :: rat) = 2875 / 100"
    by simp
  have r1: "round_half_even (23 / 80 * 100 * 10) = 288"
    by (simp add: Let_def)
  have "(23 / 80 * 100 * 10 :: rat) + 1 / 2 = 288"
    by simp
  then have r2: "\<lfloor>(23 / 80 * 100 * 10 :: rat) + 1 / 2\<rfloor> = 288"
    by (simp only: floor_numeral)
  show ?thesis
    unfolding r1 r2 tenths_text_288 using col ex by (intro conjI refl)
qed


text \<open>
  The total row of an empty batch shows \<^verbatim>\<open>0%\<close>. One case out of three shows \<^verbatim>\<open>33.3%\<close> in
  either kind of row.
\<close>

lemma rate_text_examples:
  "total_rate_text n 0 = [0x30, 0x25]"
  "total_rate_text 1 3 = [0x33, 0x33, 0x2E, 0x33, 0x25]"
  "group_rate_text 1 3 = [0x33, 0x33, 0x2E, 0x33, 0x25]"
proof -
  show "total_rate_text n 0 = [0x30, 0x25]"
    by (simp add: total_rate_text_def)
  have a: "binary64 1 = 1"
    using binary64_eqI [of 0 1] by (simp add: round_half_even_def)
  have b: "binary64 3 = 3"
    by (subst binary64_eqI [where e = 1]) (simp_all add: Let_def)
  have c: "binary64 (1 / 3) = 6004799503160661 / 18014398509481984"
    by (subst binary64_eqI [where e = "-2"]) (simp_all add: Let_def)
  have d: "binary64 (6004799503160661 / 18014398509481984 * 100) =
      2345624805922133 / 70368744177664"
    by (subst binary64_eqI [where e = 5]) (simp_all add: Let_def)
  have r: "rate_percent 1 3 = 2345624805922133 / 70368744177664"
    unfolding rate_percent_def of_nat_numeral of_nat_1 a b c d ..
  have g: "binary64 (2345624805922133 / 70368744177664 * 10) =
      1466015503701333 / 4398046511104"
    by (subst binary64_eqI [where e = 8]) (simp_all add: Let_def)
  have rg: "round_half_even (1466015503701333 / 4398046511104) = 333"
    by (simp add: Let_def)
  have rt: "round_half_even (2345624805922133 / 70368744177664 * 10) = 333"
    by (simp add: Let_def)
  have t: "tenths_text 333 = [0x33, 0x33, 0x2E, 0x33]"
    by (simp add: tenths_text_def str_int_def)
  show "total_rate_text 1 3 = [0x33, 0x33, 0x2E, 0x33, 0x25]"
    unfolding total_rate_text_def r rt t by simp
  show "group_rate_text 1 3 = [0x33, 0x33, 0x2E, 0x33, 0x25]"
    unfolding group_rate_text_def r g rg t by simp
qed

end
